theory Spec2Isabelle
  imports Main "HOL-Library.Char_ord"
begin

section \<open>Order feed synchronisation: a model of the relayer's OpenSea fetchers\<close>

text \<open>
  The TypeScript sources are embedded as HOL functions. Every remote collaborator
  (the HTTP feed, the order store, the downstream queue, the keyed cache, the lock)
  is explicit: its replies are inputs of the model and its calls are recorded in a
  chronological trace. A JavaScript exception is the \<open>Inl\<close> branch of a sum.
\<close>

subsection \<open>Errors, strings and numbers\<close>

text \<open>
  A thrown JavaScript value. The fetch loop inspects \<open>error.response?.status\<close> only, so
  an error carries its message and the status of the HTTP response attached to it, if any.
\<close>

datatype error = Error (message: string) (response_status: "nat option")

text \<open>Reading a property of \<open>undefined\<close> throws a TypeError, which has no response.\<close>

definition TypeError :: "string \<Rightarrow> error" where
  "TypeError m = Error m None"

text \<open>
  \<open>String.prototype.toLowerCase\<close>, on the ASCII range: the hashes and addresses of the
  feed are hexadecimal strings.
\<close>

definition lower_char :: "char \<Rightarrow> char" where
  "lower_char c =
     (if CHR ''A'' \<le> c \<and> c \<le> CHR ''Z'' then char_of (of_char c + (32::nat)) else c)"

definition toLowerCase :: "string \<Rightarrow> string" where
  "toLowerCase s = map lower_char s"

text \<open>Truthiness of a string and of a nullable string.\<close>

definition truthy :: "string option \<Rightarrow> bool" where
  "truthy v = (case v of None \<Rightarrow> False | Some s \<Rightarrow> s \<noteq> [])"

text \<open>Decimal rendering of a number inside a template string.\<close>

fun show_nat :: "nat \<Rightarrow> string" where
  "show_nat n =
     (if n < 10 then [char_of (48 + n)] else show_nat (n div 10) @ [char_of (48 + n mod 10)])"

declare show_nat.simps [simp del]

definition show_int :: "int \<Rightarrow> string" where
  "show_int i = (if i < 0 then CHR ''-'' # show_nat (nat (- i)) else show_nat (nat i))"

subsection \<open>The feed's order record (\<open>SeaportOrder\<close>)\<close>

record OfferItem =
  itemType :: int
  token :: string
  identifierOrCriteria :: string
  startAmount :: string
  endAmount :: string

record ConsiderationItem = OfferItem +
  recipient :: string

record Parameters =
  offerer :: string
  zone :: string
  zoneHash :: string
  conduitKey :: string
  salt :: string
  consideration :: "ConsiderationItem list"
  offer :: "OfferItem list"
  counter :: int
  orderType :: int
  startTime :: int
  endTime :: int

record ProtocolData =
  parameters :: Parameters
  signature :: string

record SeaportOrder =
  created_date :: string
  order_hash :: string
  maker_address :: string
  protocol_address :: string
  protocol_data :: ProtocolData
  client_signature :: string

subsection \<open>The order-protocol library\<close>

text \<open>The object literal \<open>orderComponent\<close> handed to the library's order constructors.\<close>

record OrderComponents =
  oc_endTime :: int
  oc_startTime :: int
  oc_consideration :: "ConsiderationItem list"
  oc_offer :: "OfferItem list"
  oc_conduitKey :: string
  oc_salt :: string
  oc_zone :: string
  oc_zoneHash :: string
  oc_offerer :: string
  oc_counter :: string
  oc_orderType :: int
  oc_signature :: "string option"

text \<open>
  An order object of the library: the chain it was built for and its (normalised)
  parameters, the \<open>params\<close> field the fetchers forward downstream.
\<close>

record SdkOrder =
  order_chain :: nat
  params :: OrderComponents

record OrderInfo =
  contract :: string

text \<open>
  The library is a parameter of the model: per protocol version, the exchange address
  table \<open>Addresses.Exchange[chainId]\<close> (a missing entry reads \<open>undefined\<close>) and the
  constructor \<open>new Order(chainId, params)\<close>, which may throw; and \<open>order.getInfo()\<close>,
  which may return \<open>undefined\<close>.
\<close>

record Sdk =
  V14_Exchange :: "nat \<Rightarrow> string option"
  V15_Exchange :: "nat \<Rightarrow> string option"
  V14_Order :: "nat \<Rightarrow> OrderComponents \<Rightarrow> error + SdkOrder"
  V15_Order :: "nat \<Rightarrow> OrderComponents \<Rightarrow> error + SdkOrder"
  getInfo :: "SdkOrder \<Rightarrow> OrderInfo option"

datatype kind = SeaportV14 | SeaportV15

record Parsed =
  parsed_kind :: kind
  parsed_order :: SdkOrder

subsection \<open>Logging\<close>

datatype level = LInfo | LWarn | LError

text \<open>
  A log line: level, component and message. Of the fetchers' log lines those of level
  error and warn are kept, with the error they report; their info lines report progress
  only and are left out. The realtime worker's lines are all kept.
\<close>

type_synonym log_line = "level \<times> string \<times> string"

definition show_error :: "error \<Rightarrow> string" where
  "show_error e = ''Error: '' @ message e"

subsection \<open>\<open>Seaport.parseSeaportOrder\<close>\<close>

definition orderComponent :: "SeaportOrder \<Rightarrow> OrderComponents" where
  "orderComponent seaportOrder =
     (let p = parameters (protocol_data seaportOrder) in
      \<lparr> oc_endTime = endTime p,
        oc_startTime = startTime p,
        oc_consideration = consideration p,
        oc_offer = offer p,
        oc_conduitKey = conduitKey p,
        oc_salt = salt p,
        oc_zone = zone p,
        oc_zoneHash = zoneHash p,
        oc_offerer = offerer p,
        oc_counter = show_int (counter p),
        oc_orderType = orderType p,
        oc_signature =
          (if signature (protocol_data seaportOrder) \<noteq> []
           then Some (signature (protocol_data seaportOrder)) else None) \<rparr>)"

text \<open>
  The body of the \<open>try\<close> block: the first matching exchange address selects the
  constructor; with no match the block falls through and the function returns
  \<open>undefined\<close>. A constructor that throws leaves the block with \<open>Inl\<close>.
\<close>

definition parse_try :: "Sdk \<Rightarrow> nat \<Rightarrow> SeaportOrder \<Rightarrow> error + Parsed option" where
  "parse_try sdk chainId seaportOrder =
     (if Some (protocol_address seaportOrder) = V14_Exchange sdk chainId then
        (case V14_Order sdk chainId (orderComponent seaportOrder) of
           Inl e \<Rightarrow> Inl e
         | Inr ord \<Rightarrow> Inr (Some \<lparr> parsed_kind = SeaportV14, parsed_order = ord \<rparr>))
      else if Some (protocol_address seaportOrder) = V15_Exchange sdk chainId then
        (case V15_Order sdk chainId (orderComponent seaportOrder) of
           Inl e \<Rightarrow> Inl e
         | Inr ord \<Rightarrow> Inr (Some \<lparr> parsed_kind = SeaportV15, parsed_order = ord \<rparr>))
      else Inr None)"

text \<open>
  The whole method: the \<open>catch\<close> clause logs the error and falls off the end of the
  function. The result is the method's completion (\<open>Inl\<close> would be an exception leaving
  the method) and the log lines it wrote.
\<close>

definition parseSeaportOrder ::
  "Sdk \<Rightarrow> nat \<Rightarrow> SeaportOrder \<Rightarrow> (error + Parsed option) \<times> log_line list" where
  "parseSeaportOrder sdk chainId seaportOrder =
     (case parse_try sdk chainId seaportOrder of
        Inr r \<Rightarrow> (Inr r, [])
      | Inl e \<Rightarrow>
          (Inr None,
           [(LError, ''parse-seaport-order'',
             ''Failed to parse order '' @ order_hash seaportOrder @ '' - '' @ show_error e)]))"

subsection \<open>Rows of the order store and the conflict-skipping bulk insert\<close>

record OrderRow =
  hash :: string
  target :: string
  maker :: string
  created_at :: string
  data :: ProtocolData
  source :: string

text \<open>
  Modelled from the spec: the table \<open>orders_v23\<close> is declared in a migration that is not
  among the sources; the spec gives \<open>hash\<close> as its unique key. The statement
  \<open>INSERT ... ON CONFLICT DO NOTHING RETURNING 1\<close> then adds, row by row, each row whose
  hash is not yet stored (a duplicate inside the batch conflicts with the row added just
  before it) and returns one result row per row added.
\<close>

definition insert_row :: "nat \<times> OrderRow list \<Rightarrow> OrderRow \<Rightarrow> nat \<times> OrderRow list" where
  "insert_row acc r =
     (if hash r \<in> set (map hash (snd acc)) then acc else (Suc (fst acc), snd acc @ [r]))"

definition insert_on_conflict_do_nothing ::
  "OrderRow list \<Rightarrow> OrderRow list \<Rightarrow> nat \<times> OrderRow list" where
  "insert_on_conflict_do_nothing vals tbl = foldl insert_row (0, tbl) vals"

subsection \<open>The per-record handlers\<close>

text \<open>
  What one page accumulates: the orders to forward downstream (\<open>parsedOrders\<close>), the rows
  to insert (the array \<open>values\<close>, here \<open>row_values\<close>) and the log lines written meanwhile.
\<close>

record PageAcc =
  parsedOrders :: "(kind \<times> OrderComponents) list"
  row_values :: "OrderRow list"
  page_log :: "log_line list"

definition empty_acc :: PageAcc where
  "empty_acc = \<lparr> parsedOrders = [], row_values = [], page_log = [] \<rparr>"

text \<open>\<open>order.protocol_data.parameters.offer[0].token\<close>: indexing an empty array gives
  \<open>undefined\<close>, and reading \<open>token\<close> from it throws.\<close>

definition first_offer_token :: "SeaportOrder \<Rightarrow> error + string" where
  "first_offer_token order =
     (case offer (parameters (protocol_data order)) of
        [] \<Rightarrow> Inl (TypeError ''Cannot read properties of undefined (reading token)'')
      | item # _ \<Rightarrow> Inr (token item))"

text \<open>\<open>parsed?.order.getInfo()?.contract\<close>: the optional chain.\<close>

definition parsed_contract :: "Sdk \<Rightarrow> Parsed option \<Rightarrow> string option" where
  "parsed_contract sdk parsed =
     (case parsed of
        None \<Rightarrow> None
      | Some p \<Rightarrow> (case getInfo sdk (parsed_order p) of None \<Rightarrow> None | Some i \<Rightarrow> Some (contract i)))"

text \<open>
  \<open>parsed?.order.getInfo()?.contract.toLowerCase() || order...offer[0].token.toLowerCase()\<close>,
  as in \<open>fetchOrders\<close>, \<open>fetchListingsBySlug\<close> and \<open>fetchCollectionOffers\<close>.
\<close>

definition target_lowered_each :: "Sdk \<Rightarrow> Parsed option \<Rightarrow> SeaportOrder \<Rightarrow> error + string" where
  "target_lowered_each sdk parsed order =
     (let c = map_option toLowerCase (parsed_contract sdk parsed) in
      case c of
        Some s \<Rightarrow>
          (if s \<noteq> [] then Inr s
           else (case first_offer_token order of Inl e \<Rightarrow> Inl e | Inr t \<Rightarrow> Inr (toLowerCase t)))
      | None \<Rightarrow> (case first_offer_token order of Inl e \<Rightarrow> Inl e | Inr t \<Rightarrow> Inr (toLowerCase t)))"

text \<open>
  \<open>(parsed?.order.getInfo()?.contract || order...offer[0].token).toLowerCase()\<close>, as in
  \<open>fetchAllOrders\<close>.
\<close>

definition target_lowered_after :: "Sdk \<Rightarrow> Parsed option \<Rightarrow> SeaportOrder \<Rightarrow> error + string" where
  "target_lowered_after sdk parsed order =
     (case parsed_contract sdk parsed of
        Some s \<Rightarrow>
          (if s \<noteq> [] then Inr (toLowerCase s)
           else (case first_offer_token order of Inl e \<Rightarrow> Inl e | Inr t \<Rightarrow> Inr (toLowerCase t)))
      | None \<Rightarrow> (case first_offer_token order of Inl e \<Rightarrow> Inl e | Inr t \<Rightarrow> Inr (toLowerCase t)))"

text \<open>\<open>if (parsed) parsedOrders.push({ kind: parsed.kind, data: parsed.order.params })\<close>.\<close>

definition push_parsed :: "Parsed option \<Rightarrow> PageAcc \<Rightarrow> PageAcc" where
  "push_parsed parsed acc =
     (case parsed of
        None \<Rightarrow> acc
      | Some p \<Rightarrow> acc\<lparr> parsedOrders := parsedOrders acc @ [(parsed_kind p, params (parsed_order p))] \<rparr>)"

text \<open>
  A handler returns the accumulator it leaves behind and the exception it threw, if any.
  \<open>created_at\<close> keeps the feed's date string (\<open>new Date\<close> is not interpreted).
\<close>

type_synonym handler = "SeaportOrder \<Rightarrow> PageAcc \<Rightarrow> error option \<times> PageAcc"

definition fetchOrders_handleOrder :: "Sdk \<Rightarrow> nat \<Rightarrow> handler" where
  "fetchOrders_handleOrder sdk chainId order acc =
     (case parseSeaportOrder sdk chainId order of
        (Inl e, lg) \<Rightarrow> (Some e, acc\<lparr> page_log := page_log acc @ lg \<rparr>)
      | (Inr parsed, lg) \<Rightarrow>
          (let acc1 = push_parsed parsed (acc\<lparr> page_log := page_log acc @ lg \<rparr>) in
           case target_lowered_each sdk parsed order of
             Inl e \<Rightarrow> (Some e, acc1)
           | Inr t \<Rightarrow>
               (None, acc1\<lparr> row_values := row_values acc1 @
                  [\<lparr> hash = toLowerCase (order_hash order),
                     target = t,
                     maker = toLowerCase (maker_address order),
                     created_at = created_date order,
                     data = protocol_data order,
                     source = ''opensea'' \<rparr>] \<rparr>)))"

definition fetchAllOrders_handleOrder :: "Sdk \<Rightarrow> nat \<Rightarrow> handler" where
  "fetchAllOrders_handleOrder sdk chainId order acc =
     (case parseSeaportOrder sdk chainId order of
        (Inl e, lg) \<Rightarrow> (Some e, acc\<lparr> page_log := page_log acc @ lg \<rparr>)
      | (Inr parsed, lg) \<Rightarrow>
          (let acc1 = push_parsed parsed (acc\<lparr> page_log := page_log acc @ lg \<rparr>) in
           case target_lowered_after sdk parsed order of
             Inl e \<Rightarrow> (Some e, acc1)
           | Inr t \<Rightarrow>
               (None, acc1\<lparr> row_values := row_values acc1 @
                  [\<lparr> hash = order_hash order,
                     target = t,
                     maker = toLowerCase (maker_address order),
                     created_at = created_date order,
                     data = protocol_data order,
                     source = ''opensea'' \<rparr>] \<rparr>)))"

definition fetchListingsBySlug_handleOrder :: "Sdk \<Rightarrow> nat \<Rightarrow> handler" where
  "fetchListingsBySlug_handleOrder sdk chainId order acc =
     (case parseSeaportOrder sdk chainId order of
        (Inl e, lg) \<Rightarrow> (Some e, acc\<lparr> page_log := page_log acc @ lg \<rparr>)
      | (Inr parsed, lg) \<Rightarrow>
          (let acc1 = push_parsed parsed (acc\<lparr> page_log := page_log acc @ lg \<rparr>) in
           case target_lowered_each sdk parsed order of
             Inl e \<Rightarrow> (Some e, acc1)
           | Inr t \<Rightarrow>
               (None, acc1\<lparr> row_values := row_values acc1 @
                  [\<lparr> hash = toLowerCase (order_hash order),
                     target = t,
                     maker = toLowerCase (maker_address order),
                     created_at = created_date order,
                     data = protocol_data order,
                     source = ''opensea'' \<rparr>] \<rparr>)))"

definition fetchCollectionOffers_handleOrder :: "Sdk \<Rightarrow> nat \<Rightarrow> handler" where
  "fetchCollectionOffers_handleOrder sdk chainId order acc =
     (case parseSeaportOrder sdk chainId order of
        (Inl e, lg) \<Rightarrow> (Some e, acc\<lparr> page_log := page_log acc @ lg \<rparr>)
      | (Inr parsed, lg) \<Rightarrow>
          (let acc1 = push_parsed parsed (acc\<lparr> page_log := page_log acc @ lg \<rparr>) in
           case target_lowered_each sdk parsed order of
             Inl e \<Rightarrow> (Some e, acc1)
           | Inr t \<Rightarrow>
               (None, acc1\<lparr> row_values := row_values acc1 @
                  [\<lparr> hash = toLowerCase (order_hash order),
                     target = t,
                     maker = toLowerCase (maker_address order),
                     created_at = created_date order,
                     data = protocol_data order,
                     source = ''opensea'' \<rparr>] \<rparr>)))"

text \<open>
  \<open>await Promise.all(orders.map((order) => plimit(() => handleOrder(order))))\<close>. The
  handlers never wait on anything outside the process, so the pool starts and finishes
  them in page order; every handler runs, and the promise rejects with the first
  exception thrown.
\<close>

fun run_handlers :: "handler \<Rightarrow> SeaportOrder list \<Rightarrow> PageAcc \<Rightarrow> error option \<times> PageAcc" where
  "run_handlers h [] acc = (None, acc)"
| "run_handlers h (order # rest) acc =
     (case h order acc of
        (None, acc1) \<Rightarrow> run_handlers h rest acc1
      | (Some e, acc1) \<Rightarrow> (Some e, snd (run_handlers h rest acc1)))"

subsection \<open>\<open>Seaport.buildFetchOrdersURL\<close>\<close>

datatype side = Sell | Buy

record FetchOrdersParams =
  p_overrideBaseUrl :: "string option"
  p_side :: side
  p_orderBy :: "string option"
  p_orderDirection :: "string option"
  p_contract :: "string option"
  p_limit :: "nat option"
  p_cursor :: "string option"
  p_listedBefore :: "int option"
  p_listedAfter :: "int option"

text \<open>
  The URL as the method assembles it: the path up to the question mark and the query
  parameters in the order they are appended. The percent-encoding of
  \<open>URLSearchParams.toString\<close> and the final \<open>decodeURI\<close> are not interpreted.
\<close>

record FetchUrl =
  base_api_url :: string
  query :: "(string \<times> string) list"

text \<open>The \<open>switch (config.chainId)\<close>: host name and network, or the thrown error.\<close>

definition chain_network :: "nat \<Rightarrow> error + string \<times> string" where
  "chain_network c =
     (if c = 1 then Inr (''api.opensea.io'', ''ethereum'')
      else if c = 5 then Inr (''testnets-api.opensea.io'', ''goerli'')
      else if c = 10 then Inr (''api.opensea.io'', ''optimism'')
      else if c = 137 then Inr (''api.opensea.io'', ''matic'')
      else if c = 42161 then Inr (''api.opensea.io'', ''arbitrum'')
      else Inl (Error ''Unsupported chain'' None))"

definition buildFetchOrdersURL :: "nat \<Rightarrow> FetchOrdersParams \<Rightarrow> error + FetchUrl" where
  "buildFetchOrdersURL c ps =
     (case chain_network c of
        Inl e \<Rightarrow> Inl e
      | Inr (hostname, network) \<Rightarrow>
          (let baseUrl = (case p_overrideBaseUrl ps of None \<Rightarrow> ''https://'' @ hostname | Some b \<Rightarrow> b);
               baseApiUrl = baseUrl @ ''/v2/orders/'' @ network @ ''/seaport/'' @
                            (if p_side ps = Sell then ''listings'' else ''offers'')
           in Inr \<lparr> base_api_url = baseApiUrl,
                    query =
                      (case p_orderBy ps of
                         Some v \<Rightarrow> (if v \<noteq> [] then [(''order_by'', v)] else []) | None \<Rightarrow> []) @
                      (case p_limit ps of
                         Some n \<Rightarrow> (if n \<noteq> 0 then [(''limit'', show_nat n)] else []) | None \<Rightarrow> []) @
                      (case p_orderDirection ps of
                         Some v \<Rightarrow> (if v \<noteq> [] then [(''order_direction'', v)] else []) | None \<Rightarrow> []) @
                      (case p_cursor ps of
                         Some v \<Rightarrow> (if v \<noteq> [] then [(''cursor'', v)] else []) | None \<Rightarrow> []) @
                      (case p_listedBefore ps of
                         Some t \<Rightarrow> (if t \<noteq> 0 then [(''listed_before'', show_int t)] else []) | None \<Rightarrow> []) @
                      (case p_listedAfter ps of
                         Some t \<Rightarrow> (if t \<noteq> 0 then [(''listed_after'', show_int t)] else []) | None \<Rightarrow> []) @
                      (case p_contract ps of
                         Some v \<Rightarrow> (if v \<noteq> [] then [(''asset_contract_address'', v)] else []) | None \<Rightarrow> [])
                  \<rparr>))"

subsection \<open>The world outside the process\<close>

text \<open>
  A request goes to a URL built by \<open>buildFetchOrdersURL\<close> or to a literal one. Request
  headers (API keys) take no part in the control flow and are left out.
\<close>

datatype url = Built FetchUrl | Plain string

datatype event =
    Request url
  | Sleep nat
  | Insert "OrderRow list"
  | Enqueue "(kind \<times> OrderComponents) list" bool
  | Logged log_line

text \<open>The table \<open>orders_v23\<close> and the chronological trace of calls to the outside.\<close>

record World =
  orders_v23 :: "OrderRow list"
  trace :: "event list"

definition emit :: "event list \<Rightarrow> World \<Rightarrow> World" where
  "emit es w = w\<lparr> trace := trace w @ es \<rparr>"

text \<open>The configuration and the library the fetchers run against.\<close>

record Env =
  sdk :: Sdk
  chainId :: nat
  openseaApiUrl :: "string option"

text \<open>\<open>response.data\<close> of the feed; \<open>next\<close> is the continuation cursor or \<open>null\<close>.\<close>

record Response =
  data_next :: "string option"
  data_orders :: "SeaportOrder list"

text \<open>
  What the outside does during one pass over a page: the reply to the HTTP request, and
  whether the insert statement and the enqueue call, if reached, reject.
\<close>

record PageIO =
  reply :: "error + Response"
  insert_fault :: "error option"
  enqueue_fault :: "error option"

text \<open>\<open>db.manyOrNone(insert ... ON CONFLICT DO NOTHING RETURNING 1)\<close>: the number of
  result rows, or the rejection; a rejected statement leaves the table as it was.\<close>

definition db_insert :: "error option \<Rightarrow> OrderRow list \<Rightarrow> World \<Rightarrow> (error + nat) \<times> World" where
  "db_insert fault vals w =
     (let w1 = emit [Insert vals] w in
      case fault of
        Some e \<Rightarrow> (Inl e, w1)
      | None \<Rightarrow>
          (case insert_on_conflict_do_nothing vals (orders_v23 w1) of
             (n, tbl) \<Rightarrow> (Inr n, w1\<lparr> orders_v23 := tbl \<rparr>)))"

text \<open>
  Modelled from the spec: \<open>addToRelayOrdersQueue\<close> lives in a module that is not among
  the sources; the spec describes a fire-and-forget enqueue of one batch with a priority
  flag. The call is recorded; it may reject.
\<close>

definition addToRelayOrdersQueue ::
  "error option \<Rightarrow> (kind \<times> OrderComponents) list \<Rightarrow> bool \<Rightarrow> World \<Rightarrow> error option \<times> World" where
  "addToRelayOrdersQueue fault batch prioritized w = (fault, emit [Enqueue batch prioritized] w)"

text \<open>\<open>if (parsedOrders.length) await addToRelayOrdersQueue(parsedOrders, true)\<close>.\<close>

definition enqueue_parsed :: "error option \<Rightarrow> PageAcc \<Rightarrow> World \<Rightarrow> error option \<times> World" where
  "enqueue_parsed fault acc w =
     (if parsedOrders acc \<noteq> [] then addToRelayOrdersQueue fault (parsedOrders acc) True w
      else (None, w))"

subsection \<open>\<open>fetchOrders\<close>: the paginated loop\<close>

text \<open>The optional argument \<open>details\<close>; an absent argument is the record of four \<open>None\<close>s.\<close>

record Details =
  d_apiKey :: "string option"
  d_overrideBaseUrl :: "string option"
  d_contract :: "string option"
  d_maxOrders :: "nat option"

text \<open>The loop variables \<open>cursor\<close>, \<open>total\<close> and \<open>done\<close>.\<close>

record LoopState =
  cursor :: "string option"
  total :: nat
  is_done :: bool

definition initial_state :: LoopState where
  "initial_state = \<lparr> cursor = None, total = 0, is_done = False \<rparr>"

text \<open>\<open>!done && (details?.maxOrders ? total < details.maxOrders : true)\<close>.\<close>

definition loop_cond :: "Details \<Rightarrow> LoopState \<Rightarrow> bool" where
  "loop_cond details st =
     (\<not> is_done st \<and>
      (case d_maxOrders details of
         Some m \<Rightarrow> (if m \<noteq> 0 then total st < m else True)
       | None \<Rightarrow> True))"

definition fetchOrders_params :: "side \<Rightarrow> Details \<Rightarrow> LoopState \<Rightarrow> FetchOrdersParams" where
  "fetchOrders_params sd details st =
     \<lparr> p_overrideBaseUrl = d_overrideBaseUrl details,
       p_side = sd,
       p_orderBy = Some ''created_date'',
       p_orderDirection = Some ''desc'',
       p_contract = d_contract details,
       p_limit = Some 50,
       p_cursor = cursor st,
       p_listedBefore = None,
       p_listedAfter = None \<rparr>"

text \<open>\<open>url: config.openseaApiUrl || url\<close>.\<close>

definition request_url :: "Env \<Rightarrow> FetchUrl \<Rightarrow> url" where
  "request_url env u =
     (case openseaApiUrl env of
        Some api \<Rightarrow> (if api \<noteq> [] then Plain api else Built u)
      | None \<Rightarrow> Built u)"

text \<open>
  The insert and the termination heuristic: \<open>if (values.length) { result = insert;
  if (_.isEmpty(result)) done = true }\<close>.
\<close>

definition fetchOrders_persist ::
  "error option \<Rightarrow> PageAcc \<Rightarrow> LoopState \<Rightarrow> World \<Rightarrow> error option \<times> LoopState \<times> World" where
  "fetchOrders_persist fault acc st w =
     (if row_values acc \<noteq> [] then
        (case db_insert fault (row_values acc) w of
           (Inl e, w1) \<Rightarrow> (Some e, st, w1)
         | (Inr n, w1) \<Rightarrow> (None, (if n = 0 then st\<lparr> is_done := True \<rparr> else st), w1))
      else (None, st, w))"

text \<open>
  The \<open>try\<close> block once the request is issued. The result is the exception that left the
  block, if any, with the loop variables and the world as they are at that moment.
\<close>

definition fetchOrders_try ::
  "Env \<Rightarrow> PageIO \<Rightarrow> LoopState \<Rightarrow> World \<Rightarrow> error option \<times> LoopState \<times> World" where
  "fetchOrders_try env io st w =
     (case reply io of
        Inl e \<Rightarrow> (Some e, st, w)
      | Inr response \<Rightarrow>
          (let st1 = st\<lparr> cursor := data_next response,
                         total := total st + length (data_orders response) \<rparr> in
           case run_handlers (fetchOrders_handleOrder (sdk env) (chainId env))
                  (data_orders response) empty_acc of
             (herr, acc) \<Rightarrow>
               (let w1 = emit (map Logged (page_log acc)) w in
                case herr of
                  Some e \<Rightarrow> (Some e, st1, w1)
                | None \<Rightarrow>
                    (case fetchOrders_persist (insert_fault io) acc st1 w1 of
                       (Some e, st2, w2) \<Rightarrow> (Some e, st2, w2)
                     | (None, st2, w2) \<Rightarrow>
                         (case enqueue_parsed (enqueue_fault io) acc w2 of
                            (r, w3) \<Rightarrow> (r, st2, w3))))))"

text \<open>
  The \<open>catch\<close> block: \<open>None\<close> is the \<open>continue\<close> after the fixed delay, \<open>Some\<close> the
  error thrown on.
\<close>

definition fetchOrders_catch :: "error \<Rightarrow> LoopState \<Rightarrow> World \<Rightarrow> error option \<times> World" where
  "fetchOrders_catch e st w =
     (let w1 = emit [Logged (LError, ''fetch_orders_seaport'', ''Seaport - Error. '' @ show_error e)] w in
      if response_status e = Some 429 then
        (let w2 = emit [Logged (LWarn, ''fetch_orders_seaport'', ''Seaport - Rate Limited. '' @ show_error e)] w1 in
         if truthy (cursor st) then
           (None,
            emit [Logged (LWarn, ''fetch_orders_seaport'', ''Seaport - Rate Limited - Retry. '' @ show_error e),
                  Sleep 5000] w2)
         else (Some e, w2))
      else (Some e, w1))"

text \<open>One pass through the loop body after the request is issued.\<close>

definition fetchOrders_iteration ::
  "Env \<Rightarrow> PageIO \<Rightarrow> LoopState \<Rightarrow> World \<Rightarrow> error option \<times> LoopState \<times> World" where
  "fetchOrders_iteration env io st w =
     (case fetchOrders_try env io st w of
        (None, st1, w1) \<Rightarrow> (None, st1, w1)
      | (Some e, st1, w1) \<Rightarrow>
          (case fetchOrders_catch e st1 w1 of (r, w2) \<Rightarrow> (r, st1, w2)))"

text \<open>
  How a run ends. The outside is a finite script of page events; a loop that asks for
  a page beyond the script is still running (\<open>Pending\<close>): it has issued its request and
  waits for the reply.
\<close>

datatype outcome = Returned | Threw error | Pending

fun fetchOrders_loop ::
  "Env \<Rightarrow> side \<Rightarrow> Details \<Rightarrow> PageIO list \<Rightarrow> LoopState \<Rightarrow> World \<Rightarrow> outcome \<times> LoopState \<times> World" where
  "fetchOrders_loop env sd details [] st w =
     (if \<not> loop_cond details st then (Returned, st, w)
      else (case buildFetchOrdersURL (chainId env) (fetchOrders_params sd details st) of
              Inl e \<Rightarrow> (Threw e, st, w)
            | Inr u \<Rightarrow> (Pending, st, emit [Request (request_url env u)] w)))"
| "fetchOrders_loop env sd details (io # rest) st w =
     (if \<not> loop_cond details st then (Returned, st, w)
      else (case buildFetchOrdersURL (chainId env) (fetchOrders_params sd details st) of
              Inl e \<Rightarrow> (Threw e, st, w)
            | Inr u \<Rightarrow>
                (case fetchOrders_iteration env io st (emit [Request (request_url env u)] w) of
                   (None, st1, w1) \<Rightarrow> fetchOrders_loop env sd details rest st1 w1
                 | (Some e, st1, w1) \<Rightarrow> (Threw e, st1, w1))))"

definition fetchOrders ::
  "Env \<Rightarrow> side \<Rightarrow> Details \<Rightarrow> PageIO list \<Rightarrow> World \<Rightarrow> outcome \<times> LoopState \<times> World" where
  "fetchOrders env sd details ios w = fetchOrders_loop env sd details ios initial_state w"

subsection \<open>The one-shot fetchers\<close>

text \<open>
  \<open>if (values.length) insert\<close> without a termination flag, shared by the three one-shot
  fetchers (each spells it out in the source).
\<close>

definition persist_values :: "error option \<Rightarrow> PageAcc \<Rightarrow> World \<Rightarrow> error option \<times> World" where
  "persist_values fault acc w =
     (if row_values acc \<noteq> [] then
        (case db_insert fault (row_values acc) w of
           (Inl e, w1) \<Rightarrow> (Some e, w1)
         | (Inr n, w1) \<Rightarrow> (None, w1))
      else (None, w))"

text \<open>The part of a one-shot \<open>try\<close> block after the reply has arrived.\<close>

definition process_page :: "handler \<Rightarrow> PageIO \<Rightarrow> Response \<Rightarrow> World \<Rightarrow> error option \<times> World" where
  "process_page h io response w =
     (case run_handlers h (data_orders response) empty_acc of
        (herr, acc) \<Rightarrow>
          (let w1 = emit (map Logged (page_log acc)) w in
           case herr of
             Some e \<Rightarrow> (Some e, w1)
           | None \<Rightarrow>
               (case persist_values (insert_fault io) acc w1 of
                  (Some e, w2) \<Rightarrow> (Some e, w2)
                | (None, w2) \<Rightarrow> enqueue_parsed (enqueue_fault io) acc w2)))"

text \<open>
  \<open>fetchAllOrders(fromTimestamp, toTimestamp, cursor)\<close> returns \<open>response.data.next\<close>; its
  \<open>catch\<close> rethrows.
\<close>

definition fetchAllOrders ::
  "Env \<Rightarrow> int option \<Rightarrow> int option \<Rightarrow> string option \<Rightarrow> PageIO \<Rightarrow> World
   \<Rightarrow> (error + string option) \<times> World" where
  "fetchAllOrders env fromTimestamp toTimestamp cur io w =
     (case buildFetchOrdersURL (chainId env)
             \<lparr> p_overrideBaseUrl = None, p_side = Sell, p_orderBy = Some ''created_date'',
               p_orderDirection = Some ''desc'', p_contract = None, p_limit = Some 50,
               p_cursor = cur, p_listedBefore = toTimestamp, p_listedAfter = fromTimestamp \<rparr> of
        Inl e \<Rightarrow> (Inl e, w)
      | Inr u \<Rightarrow>
          (let w1 = emit [Request (request_url env u)] w in
           case reply io of
             Inl e \<Rightarrow> (Inl e, w1)
           | Inr response \<Rightarrow>
               (case process_page (fetchAllOrders_handleOrder (sdk env) (chainId env)) io response w1 of
                  (Some e, w2) \<Rightarrow> (Inl e, w2)
                | (None, w2) \<Rightarrow> (Inr (data_next response), w2))))"

text \<open>
  \<open>fetchListingsBySlug(slug)\<close>: \<open>data_orders\<close> stands for \<open>response.data.listings\<close>; the
  \<open>catch\<close> logs and rethrows.
\<close>

definition fetchListingsBySlug :: "Env \<Rightarrow> string \<Rightarrow> PageIO \<Rightarrow> World \<Rightarrow> error option \<times> World" where
  "fetchListingsBySlug env slug io w =
     (let u = (if chainId env = 5
               then ''https://testnets-api.opensea.io/api/v2/listings/collection/'' @ slug @ ''/all''
               else ''https://api.opensea.io/api/v2/listings/collection/'' @ slug @ ''/all'');
          w1 = emit [Request (Plain u)] w;
          r = (case reply io of
                 Inl e \<Rightarrow> (Some e, w1)
               | Inr response \<Rightarrow>
                   process_page (fetchListingsBySlug_handleOrder (sdk env) (chainId env)) io response w1)
      in case r of
           (None, w2) \<Rightarrow> (None, w2)
         | (Some e, w2) \<Rightarrow>
             (Some e, emit [Logged (LError, ''fetch_listings_by_slug'',
                                    ''Seaport - Error. slug:'' @ slug @ '', error:'' @ show_error e)] w2))"

text \<open>
  \<open>fetchCollectionOffers(contract, tokenId, apiKey)\<close>: \<open>data_orders\<close> stands for
  \<open>response.data.seaport_offers\<close>; the \<open>catch\<close> rethrows.
\<close>

definition fetchCollectionOffers ::
  "Env \<Rightarrow> string \<Rightarrow> string \<Rightarrow> PageIO \<Rightarrow> World \<Rightarrow> error option \<times> World" where
  "fetchCollectionOffers env contr tokenId io w =
     (let u = (if chainId env = 1
               then ''https://api.opensea.io/api/v1/asset/'' @ contr @ ''/'' @ tokenId @ ''/offers''
               else ''https://testnets-api.opensea.io/api/v1/asset/'' @ contr @ ''/'' @ tokenId @ ''/offers'');
          w1 = emit [Request (Plain u)] w
      in case reply io of
           Inl e \<Rightarrow> (Some e, w1)
         | Inr response \<Rightarrow>
             process_page (fetchCollectionOffers_handleOrder (sdk env) (chainId env)) io response w1)"

subsection \<open>The realtime worker\<close>

record Job =
  attemptsMade :: nat

datatype rt_event =
    RedisGet string
  | FetchByPageToken side string
  | RedisSet string string
  | ReleaseLock string bool
  | RtLogged log_line

text \<open>The keyed cache and the chronological trace of the worker's calls.\<close>

record RtWorld =
  redis :: "string \<rightharpoonup> string"
  rt_trace :: "rt_event list"

definition rt_emit :: "rt_event list \<Rightarrow> RtWorld \<Rightarrow> RtWorld" where
  "rt_emit es w = w\<lparr> rt_trace := rt_trace w @ es \<rparr>"

text \<open>
  What the outside does during one job: whether \<open>redis.get\<close> and \<open>redis.set\<close> reject, and
  the fetch. \<open>fetchOrdersByPageToken\<close> is imported from a module that is not among the
  sources, so it is an input: for a side and a page token it throws or returns an array
  whose first element, the new page token, may be missing.
\<close>

record RunIO =
  get_fault :: "error option"
  fetchOrdersByPageToken :: "side \<Rightarrow> string \<Rightarrow> error + string option"
  set_fault :: "error option"

definition cacheKey :: string where
  "cacheKey = ''coinbase-sync-last''"

definition REALTIME_QUEUE_NAME :: string where
  "REALTIME_QUEUE_NAME = ''realtime-coinbase-sync''"

text \<open>\<open>if (newPageToken) await redis.set(cacheKey, newPageToken)\<close>.\<close>

definition store_page_token :: "RunIO \<Rightarrow> string option \<Rightarrow> RtWorld \<Rightarrow> error option \<times> RtWorld" where
  "store_page_token io newPageToken w =
     (case newPageToken of
        None \<Rightarrow> (None, w)
      | Some t \<Rightarrow>
          (if t \<noteq> [] then
             (let w1 = rt_emit [RedisSet cacheKey t] w in
              case set_fault io of
                Some e \<Rightarrow> (Some e, w1)
              | None \<Rightarrow> (None, w1\<lparr> redis := (redis w1)(cacheKey \<mapsto> t) \<rparr>))
           else (None, w)))"

text \<open>The \<open>try\<close> block of the processor.\<close>

definition realtime_try :: "RunIO \<Rightarrow> RtWorld \<Rightarrow> error option \<times> RtWorld" where
  "realtime_try io w =
     (let w1 = rt_emit [RedisGet cacheKey] w in
      case get_fault io of
        Some e \<Rightarrow> (Some e, w1)
      | None \<Rightarrow>
          (let pageTokenCache = (case redis w1 cacheKey of None \<Rightarrow> [] | Some v \<Rightarrow> v);
               w2 = rt_emit [RtLogged (LInfo, REALTIME_QUEUE_NAME,
                                       ''Start Coinbase sync from pageTokenCache='' @ pageTokenCache),
                             FetchByPageToken Sell pageTokenCache] w1
           in case fetchOrdersByPageToken io Sell pageTokenCache of
                Inl e \<Rightarrow> (Some e, w2)
              | Inr newPageToken \<Rightarrow>
                  (let w3 = (if newPageToken = Some pageTokenCache
                             then rt_emit [RtLogged (LInfo, REALTIME_QUEUE_NAME,
                                            ''Coinbase pageToken did not change pageToken='' @ pageTokenCache)] w2
                             else w2)
                   in store_page_token io newPageToken w3)))"

text \<open>
  The processor \<open>async (job) => { try { ... } catch (error) { logger.error(...) } }\<close>.
  \<open>None\<close>: the promise resolves; \<open>Some\<close>: it rejects.
\<close>

definition realtime_processor :: "RunIO \<Rightarrow> Job \<Rightarrow> RtWorld \<Rightarrow> error option \<times> RtWorld" where
  "realtime_processor io job w =
     (case realtime_try io w of
        (None, w1) \<Rightarrow> (None, w1)
      | (Some e, w1) \<Rightarrow>
          (None,
           rt_emit [RtLogged (LError, REALTIME_QUEUE_NAME,
                      ''Coinbase sync failed attempts='' @ show_nat (attemptsMade job) @
                      '', error='' @ show_error e)] w1))"

text \<open>The listener \<open>realtimeWorker.on("completed", ...)\<close>.\<close>

definition on_completed :: "Job \<Rightarrow> RtWorld \<Rightarrow> RtWorld" where
  "on_completed job w =
     (let w1 = rt_emit [ReleaseLock ''coinbase-sync-lock'' False] w in
      if attemptsMade job > 0
      then rt_emit [RtLogged (LInfo, REALTIME_QUEUE_NAME,
                      ''Sync recover attempts='' @ show_nat (attemptsMade job))] w1
      else w1)"

datatype job_status = Completed | Failed error

text \<open>
  The queue library's worker runs the processor for a job; when the processor's promise
  resolves the job is completed and the \<open>completed\<close> listeners run, when it rejects the
  job has failed (no \<open>failed\<close> listener is registered).
\<close>

definition run_job :: "RunIO \<Rightarrow> Job \<Rightarrow> RtWorld \<Rightarrow> job_status \<times> RtWorld" where
  "run_job io job w =
     (case realtime_processor io job w of
        (None, w1) \<Rightarrow> (Completed, on_completed job w1)
      | (Some e, w1) \<Rightarrow> (Failed e, w1))"

definition is_release :: "rt_event \<Rightarrow> bool" where
  "is_release ev = (case ev of ReleaseLock name flag \<Rightarrow> True | _ \<Rightarrow> False)"

definition is_fetch_call :: "rt_event \<Rightarrow> bool" where
  "is_fetch_call ev = (case ev of FetchByPageToken sd tok \<Rightarrow> True | _ \<Rightarrow> False)"

text \<open>The page token a job starts from: the cached value, or the empty string.\<close>

definition start_token :: "RtWorld \<Rightarrow> string" where
  "start_token w = (case redis w cacheKey of None \<Rightarrow> [] | Some v \<Rightarrow> v)"

subsection \<open>\<open>refreshCollectionsToFetchOffers\<close>\<close>

definition MAX_FETCH_OFFERS_COLLECTIONS :: nat where
  "MAX_FETCH_OFFERS_COLLECTIONS = 1000"

text \<open>A collection of the ranking source (\<open>id\<close>, \<open>primaryContract\<close>).\<close>

record Collection =
  collection_id :: string
  primaryContract :: string

record RankingPage =
  page_collections :: "Collection list"
  page_continuation :: "string option"

record FetchOffersCollection =
  foc_collection :: string
  foc_contract :: string
  foc_tokenId :: "string option"

text \<open>
  The two requests of the refresh are GETs under the indexer's base URL, to
  \<open>/collections/v5\<close> and to \<open>/tokens/ids/v1\<close>; an event records the query parameters of
  the request.
\<close>

datatype rf_event =
    RankingRequest "(string \<times> string) list"
  | TokensRequest "(string \<times> string) list"
  | Add "FetchOffersCollection list" bool
  | RfLogged log_line

text \<open>
  \<open>continuation ? `...?limit=20&sortBy=30DayVolume&continuation=${continuation}`
  : `...?limit=20&sortBy=30DayVolume`\<close>.
\<close>

definition ranking_query :: "string option \<Rightarrow> (string \<times> string) list" where
  "ranking_query continuation =
     (case continuation of
        Some c \<Rightarrow>
          (if c \<noteq> []
           then [(''limit'', ''20''), (''sortBy'', ''30DayVolume''), (''continuation'', c)]
           else [(''limit'', ''20''), (''sortBy'', ''30DayVolume'')])
      | None \<Rightarrow> [(''limit'', ''20''), (''sortBy'', ''30DayVolume'')])"

text \<open>\<open>`...?collection=${collection.id}&limit=50`\<close>.\<close>

definition tokens_query :: "string \<Rightarrow> (string \<times> string) list" where
  "tokens_query cid = [(''collection'', cid), (''limit'', ''50'')]"

text \<open>
  What the outside does during a refresh: the ranking source's reply to the \<open>i\<close>-th
  request (made with the given continuation), the reply to the token request for the
  \<open>i\<close>-th collection together with the random number \<open>_.sample\<close> draws, and whether the
  final \<open>add\<close> rejects.
\<close>

record RefreshIO =
  ranking_reply :: "nat \<Rightarrow> string option \<Rightarrow> error + RankingPage"
  tokens_reply :: "nat \<Rightarrow> string \<Rightarrow> error + string list \<times> nat"
  add_fault :: "error option"

text \<open>\<open>Math.ceil(MAX_FETCH_OFFERS_COLLECTIONS / 20)\<close>.\<close>

definition max_pages :: nat where
  "max_pages = (MAX_FETCH_OFFERS_COLLECTIONS + 19) div 20"

text \<open>
  The \<open>for\<close> loop over ranking pages from iteration \<open>i\<close> on: the exception that left it,
  if any, the collections gathered and the trace. Every element of a page is pushed,
  however many the page holds.
\<close>

function ranking_loop ::
  "RefreshIO \<Rightarrow> nat \<Rightarrow> string option \<Rightarrow> Collection list \<Rightarrow> rf_event list
   \<Rightarrow> error option \<times> Collection list \<times> rf_event list" where
  "ranking_loop io i continuation collections tr =
     (if i < max_pages then
        (let tr1 = tr @ [RankingRequest (ranking_query continuation)] in
         case ranking_reply io i continuation of
           Inl e \<Rightarrow> (Some e, collections, tr1)
         | Inr page \<Rightarrow>
             (if length (page_collections page) < 20
              then (None, collections @ page_collections page, tr1)
              else ranking_loop io (Suc i) (page_continuation page)
                     (collections @ page_collections page) tr1))
      else (None, collections, tr))"
  by pat_completeness auto
termination
  by (relation "measure (\<lambda>(io, i, continuation, collections, tr). max_pages - i)") auto

declare ranking_loop.simps [simp del]

text \<open>\<open>_.sample(tokens)\<close> with the random number drawn: \<open>undefined\<close> on an empty array.\<close>

definition sample :: "nat \<Rightarrow> string list \<Rightarrow> string option" where
  "sample rnd xs = (if xs = [] then None else Some (xs ! (rnd mod length xs)))"

text \<open>
  The \<open>for (const collection of collections)\<close> loop with its inner \<open>try\<close>/\<open>catch\<close>; \<open>i\<close> is
  the position of the next collection.
\<close>

fun sample_loop ::
  "RefreshIO \<Rightarrow> nat \<Rightarrow> Collection list \<Rightarrow> FetchOffersCollection list \<Rightarrow> rf_event list
   \<Rightarrow> FetchOffersCollection list \<times> rf_event list" where
  "sample_loop io i [] toAdd tr = (toAdd, tr)"
| "sample_loop io i (c # rest) toAdd tr =
     (let tr1 = tr @ [TokensRequest (tokens_query (collection_id c))] in
      case tokens_reply io i (collection_id c) of
        Inr (tokens, rnd) \<Rightarrow>
          sample_loop io (Suc i) rest
            (toAdd @ [\<lparr> foc_collection = collection_id c,
                         foc_contract = primaryContract c,
                         foc_tokenId = sample rnd tokens \<rparr>]) tr1
      | Inl e \<Rightarrow>
          sample_loop io (Suc i) rest toAdd
            (tr1 @ [RfLogged (LError, ''refresh_collections'',
                      ''Failed to refresh collection. collectionId='' @ collection_id c @
                      '', error:'' @ show_error e)]))"

text \<open>
  The whole function. Its outer \<open>catch\<close> logs whatever was thrown, so the result is the
  trace alone. \<open>FetchOffersCollections.add\<close> is outside the sources: the call is recorded
  with its arguments.
\<close>

definition refreshCollectionsToFetchOffers :: "RefreshIO \<Rightarrow> rf_event list" where
  "refreshCollectionsToFetchOffers io =
     (case ranking_loop io 0 None [] [] of
        (Some e, collections, tr) \<Rightarrow>
          tr @ [RfLogged (LError, ''refresh_collections'', ''Failed. error:'' @ show_error e)]
      | (None, collections, tr) \<Rightarrow>
          (if collections \<noteq> [] then
             (case sample_loop io 0 collections [] tr of
                (toAdd, tr1) \<Rightarrow>
                  (case add_fault io of
                     None \<Rightarrow> tr1 @ [Add toAdd True]
                   | Some e \<Rightarrow>
                       tr1 @ [Add toAdd True,
                              RfLogged (LError, ''refresh_collections'', ''Failed. error:'' @ show_error e)]))
           else tr))"

subsection \<open>Reading a trace\<close>

definition is_request :: "event \<Rightarrow> bool" where
  "is_request ev = (case ev of Request u \<Rightarrow> True | _ \<Rightarrow> False)"

definition is_sleep :: "event \<Rightarrow> bool" where
  "is_sleep ev = (case ev of Sleep ms \<Rightarrow> True | _ \<Rightarrow> False)"

definition is_insert :: "event \<Rightarrow> bool" where
  "is_insert ev = (case ev of Insert vals \<Rightarrow> True | _ \<Rightarrow> False)"

text \<open>
  What one rate-limited pass of \<open>fetchOrders\<close> with a truthy cursor leaves in the trace:
  the request, the three log lines of the \<open>catch\<close> block and the five-second wait.
\<close>

definition retry_events :: "Env \<Rightarrow> FetchUrl \<Rightarrow> error \<Rightarrow> event list" where
  "retry_events env u e =
     [Request (request_url env u),
      Logged (LError, ''fetch_orders_seaport'', ''Seaport - Error. '' @ show_error e),
      Logged (LWarn, ''fetch_orders_seaport'', ''Seaport - Rate Limited. '' @ show_error e),
      Logged (LWarn, ''fetch_orders_seaport'', ''Seaport - Rate Limited - Retry. '' @ show_error e),
      Sleep 5000]"

definition is_ranking_request :: "rf_event \<Rightarrow> bool" where
  "is_ranking_request ev = (case ev of RankingRequest c \<Rightarrow> True | _ \<Rightarrow> False)"

definition is_tokens_request :: "rf_event \<Rightarrow> bool" where
  "is_tokens_request ev = (case ev of TokensRequest c \<Rightarrow> True | _ \<Rightarrow> False)"

text \<open>The entry the refresh records for a collection, given its sampled tokens and the random draw.\<close>

definition probe :: "Collection \<Rightarrow> string list \<Rightarrow> nat \<Rightarrow> FetchOffersCollection" where
  "probe c tokens rnd =
     \<lparr> foc_collection = collection_id c, foc_contract = primaryContract c,
       foc_tokenId = sample rnd tokens \<rparr>"

text \<open>
  The row that the handlers of \<open>fetchOrders\<close>, \<open>fetchListingsBySlug\<close> and
  \<open>fetchCollectionOffers\<close> push for a record, given the target found for it.
\<close>

definition expected_row :: "SeaportOrder \<Rightarrow> string \<Rightarrow> OrderRow" where
  "expected_row order t =
     \<lparr> hash = toLowerCase (order_hash order),
       target = t,
       maker = toLowerCase (maker_address order),
       created_at = created_date order,
       data = protocol_data order,
       source = ''opensea'' \<rparr>"

subsection \<open>Example inputs\<close>

text \<open>Concrete records, library and replies on which the theorems below are exercised.\<close>

definition mk_item :: "string \<Rightarrow> OfferItem" where
  "mk_item tok =
     \<lparr> itemType = 2, token = tok, identifierOrCriteria = ''1'', startAmount = ''1'', endAmount = ''1'' \<rparr>"

definition mk_order :: "string \<Rightarrow> string \<Rightarrow> OfferItem list \<Rightarrow> SeaportOrder" where
  "mk_order h addr items =
     \<lparr> created_date = ''2023-05-01T00:00:00'',
       order_hash = h,
       maker_address = ''0xMaKer'',
       protocol_address = addr,
       protocol_data =
         \<lparr> parameters =
             \<lparr> offerer = ''0xMaKer'', zone = ''0x00'', zoneHash = ''0x00'', conduitKey = ''0x00'',
               salt = ''7'', consideration = [], offer = items, counter = 0, orderType = 0,
               startTime = 1, endTime = 2 \<rparr>,
           signature = ''0xsig'' \<rparr>,
       client_signature = [] \<rparr>"

text \<open>
  A library with both exchange tables filled for chain 1 only, whose constructors reject
  an order without offer items, and whose \<open>getInfo\<close> reads the first offer item.
\<close>

definition test_sdk :: Sdk where
  "test_sdk =
     \<lparr> V14_Exchange = (\<lambda>c. if c = 1 then Some ''0x14'' else None),
       V15_Exchange = (\<lambda>c. if c = 1 then Some ''0x15'' else None),
       V14_Order = (\<lambda>c p. if oc_offer p = [] then Inl (Error ''Could not detect order kind'' None)
                            else Inr \<lparr> order_chain = c, params = p \<rparr>),
       V15_Order = (\<lambda>c p. if oc_offer p = [] then Inl (Error ''Could not detect order kind'' None)
                            else Inr \<lparr> order_chain = c, params = p \<rparr>),
       getInfo = (\<lambda>ord. case oc_offer (params ord) of
                          [] \<Rightarrow> None | item # _ \<Rightarrow> Some \<lparr> contract = token item \<rparr>) \<rparr>"

definition test_env :: Env where
  "test_env = \<lparr> sdk = test_sdk, chainId = 1, openseaApiUrl = None \<rparr>"

definition no_details :: Details where
  "no_details = \<lparr> d_apiKey = None, d_overrideBaseUrl = None, d_contract = None, d_maxOrders = None \<rparr>"

definition empty_world :: World where
  "empty_world = \<lparr> orders_v23 = [], trace = [] \<rparr>"

definition page_of :: "string option \<Rightarrow> SeaportOrder list \<Rightarrow> PageIO" where
  "page_of nxt os =
     \<lparr> reply = Inr \<lparr> data_next = nxt, data_orders = os \<rparr>, insert_fault = None, enqueue_fault = None \<rparr>"

definition failing_page :: "error \<Rightarrow> PageIO" where
  "failing_page e = \<lparr> reply = Inl e, insert_fault = None, enqueue_fault = None \<rparr>"

definition rate_limited :: error where
  "rate_limited = Error ''Request failed with status code 429'' (Some 429)"

definition server_error :: error where
  "server_error = Error ''Request failed with status code 500'' (Some 500)"

definition second_page_state :: LoopState where
  "second_page_state = \<lparr> cursor = Some ''c1'', total = 50, is_done = False \<rparr>"

definition listings_url :: "(string \<times> string) list \<Rightarrow> FetchUrl" where
  "listings_url cur =
     \<lparr> base_api_url = ''https://api.opensea.io/v2/orders/ethereum/seaport/listings'',
       query = [(''order_by'', ''created_date''), (''limit'', ''50''), (''order_direction'', ''desc'')] @ cur \<rparr>"

definition row_of :: "string \<Rightarrow> string \<Rightarrow> OrderRow" where
  "row_of h t =
     \<lparr> hash = h, target = t, maker = ''0xmaker'', created_at = ''2023-05-01T00:00:00'',
       data = protocol_data (mk_order h ''0x14'' []), source = ''opensea'' \<rparr>"

definition synced_world :: World where
  "synced_world = \<lparr> orders_v23 = [row_of ''0xaa'' ''0xt1''], trace = [] \<rparr>"

definition empty_rt :: RtWorld where
  "empty_rt = \<lparr> redis = Map.empty, rt_trace = [] \<rparr>"

definition failing_run :: RunIO where
  "failing_run = \<lparr> get_fault = None, fetchOrdersByPageToken = (\<lambda>sd tok. Inl server_error), set_fault = None \<rparr>"

definition moving_run :: "string \<Rightarrow> RunIO" where
  "moving_run t = \<lparr> get_fault = None, fetchOrdersByPageToken = (\<lambda>sd tok. Inr (Some t)), set_fault = None \<rparr>"

definition first_job :: Job where
  "first_job = \<lparr> attemptsMade = 0 \<rparr>"

definition col :: "string \<Rightarrow> Collection" where
  "col n = \<lparr> collection_id = n, primaryContract = ''0x'' @ n \<rparr>"

definition paged_source :: RefreshIO where
  "paged_source =
     \<lparr> ranking_reply = (\<lambda>n c. if n = 0
                               then Inr \<lparr> page_collections = replicate 20 (col ''a''),
                                          page_continuation = Some ''k1'' \<rparr>
                               else if n = 1
                               then Inr \<lparr> page_collections = [col ''b'', col ''c''],
                                          page_continuation = None \<rparr>
                               else Inl server_error),
       tokens_reply = (\<lambda>j cid. if j = 0 then Inl server_error else Inr ([''7'', ''8''], 3)),
       add_fault = None \<rparr>"

definition greedy_source :: RefreshIO where
  "greedy_source =
     \<lparr> ranking_reply = (\<lambda>n c. Inr \<lparr> page_collections = replicate 21 (col ''a''),
                                      page_continuation = Some ''k'' \<rparr>),
       tokens_reply = (\<lambda>j cid. Inr ([''7''], 0)),
       add_fault = None \<rparr>"

section \<open>Properties\<close>

subsection \<open>The parser never throws\<close>

text \<open>
  C5. \<open>parseSeaportOrder\<close> returns \<open>undefined\<close> (and logs nothing) when the record's
  protocol address equals neither exchange address of the chain; it returns \<open>undefined\<close>
  when the constructor selected by the address throws; and whatever the record and the
  library, it completes normally: no exception leaves it.
\<close>

theorem parseSeaportOrder_absent_never_throws:
  "(Some (protocol_address r) \<noteq> V14_Exchange lib c \<and> Some (protocol_address r) \<noteq> V15_Exchange lib c
      \<longrightarrow> parseSeaportOrder lib c r = (Inr None, []))
   \<and> (Some (protocol_address r) = V14_Exchange lib c \<and> V14_Order lib c (orderComponent r) = Inl e
      \<longrightarrow> fst (parseSeaportOrder lib c r) = Inr None)
   \<and> (Some (protocol_address r) \<noteq> V14_Exchange lib c \<and> Some (protocol_address r) = V15_Exchange lib c
       \<and> V15_Order lib c (orderComponent r) = Inl e
      \<longrightarrow> fst (parseSeaportOrder lib c r) = Inr None)
   \<and> (\<exists>v. fst (parseSeaportOrder lib c r) = Inr v)"
  by (auto simp: parseSeaportOrder_def parse_try_def split: sum.splits)

theorem parseSeaportOrder_absent_never_throws_witness:
  "(Some (protocol_address (mk_order ''0xH1'' ''0x99'' [mk_item ''0xT''])) \<noteq> V14_Exchange test_sdk 1
    \<and> Some (protocol_address (mk_order ''0xH1'' ''0x99'' [mk_item ''0xT''])) \<noteq> V15_Exchange test_sdk 1
    \<and> parseSeaportOrder test_sdk 1 (mk_order ''0xH1'' ''0x99'' [mk_item ''0xT'']) = (Inr None, []))
   \<and> (Some (protocol_address (mk_order ''0xH2'' ''0x14'' [])) = V14_Exchange test_sdk 1
    \<and> V14_Order test_sdk 1 (orderComponent (mk_order ''0xH2'' ''0x14'' []))
        = Inl (Error ''Could not detect order kind'' None)
    \<and> fst (parseSeaportOrder test_sdk 1 (mk_order ''0xH2'' ''0x14'' [])) = Inr None)
   \<and> (Some (protocol_address (mk_order ''0xH3'' ''0x15'' [])) \<noteq> V14_Exchange test_sdk 1
    \<and> Some (protocol_address (mk_order ''0xH3'' ''0x15'' [])) = V15_Exchange test_sdk 1
    \<and> V15_Order test_sdk 1 (orderComponent (mk_order ''0xH3'' ''0x15'' []))
        = Inl (Error ''Could not detect order kind'' None)
    \<and> fst (parseSeaportOrder test_sdk 1 (mk_order ''0xH3'' ''0x15'' [])) = Inr None)"
proof -
  have a: "Some (protocol_address (mk_order ''0xH1'' ''0x99'' [mk_item ''0xT''])) \<noteq> V14_Exchange test_sdk 1
    \<and> Some (protocol_address (mk_order ''0xH1'' ''0x99'' [mk_item ''0xT''])) \<noteq> V15_Exchange test_sdk 1"
    by (simp add: mk_order_def test_sdk_def)
  have b: "Some (protocol_address (mk_order ''0xH2'' ''0x14'' [])) = V14_Exchange test_sdk 1
    \<and> V14_Order test_sdk 1 (orderComponent (mk_order ''0xH2'' ''0x14'' []))
        = Inl (Error ''Could not detect order kind'' None)"
    by (simp add: mk_order_def test_sdk_def orderComponent_def)
  have c: "Some (protocol_address (mk_order ''0xH3'' ''0x15'' [])) \<noteq> V14_Exchange test_sdk 1
    \<and> Some (protocol_address (mk_order ''0xH3'' ''0x15'' [])) = V15_Exchange test_sdk 1
    \<and> V15_Order test_sdk 1 (orderComponent (mk_order ''0xH3'' ''0x15'' []))
        = Inl (Error ''Could not detect order kind'' None)"
    by (simp add: mk_order_def test_sdk_def orderComponent_def)
  show ?thesis
    using a b c
      parseSeaportOrder_absent_never_throws [of "mk_order ''0xH1'' ''0x99'' [mk_item ''0xT'']" test_sdk 1]
      parseSeaportOrder_absent_never_throws [of "mk_order ''0xH2'' ''0x14'' []" test_sdk 1 "Error ''Could not detect order kind'' None"]
      parseSeaportOrder_absent_never_throws [of "mk_order ''0xH3'' ''0x15'' []" test_sdk 1 "Error ''Could not detect order kind'' None"]
    by blast
qed

subsection \<open>The conflict-skipping insert\<close>

lemma foldl_insert_row_hashes:
  "set (map hash (snd (foldl insert_row acc vs))) = set (map hash (snd acc)) \<union> set (map hash vs)"
  by (induction vs arbitrary: acc) (auto simp: insert_row_def)

lemma foldl_insert_row_known:
  "set (map hash vs) \<subseteq> set (map hash (snd acc)) \<Longrightarrow> foldl insert_row acc vs = acc"
  by (induction vs arbitrary: acc) (auto simp: insert_row_def)

lemma foldl_insert_row_extends:
  "\<exists>added. snd (foldl insert_row acc vs) = snd acc @ added"
proof (induction vs arbitrary: acc)
  case Nil
  show ?case by simp
next
  case (Cons v vs)
  obtain added where a: "snd (foldl insert_row (insert_row acc v) vs) = snd (insert_row acc v) @ added"
    using Cons.IH by blast
  show ?case
  proof (cases "hash v \<in> set (map hash (snd acc))")
    case True
    then have "insert_row acc v = acc" by (simp add: insert_row_def)
    with a show ?thesis by simp
  next
    case False
    then have "insert_row acc v = (Suc (fst acc), snd acc @ [v])" by (simp add: insert_row_def)
    with a have "snd (foldl insert_row acc (v # vs)) = snd acc @ (v # added)" by simp
    then show ?thesis by blast
  qed
qed

subsection \<open>Idempotence of the insert\<close>

text \<open>
  C4. Submitting a batch a second time leaves the table as the first submission left it
  and reports zero new rows; a submission only appends to the table (stored rows stay
  as they are), and a row whose hash is already stored is skipped.
\<close>

theorem insert_twice_idempotent:
  "snd (insert_on_conflict_do_nothing vals (snd (insert_on_conflict_do_nothing vals tbl)))
     = snd (insert_on_conflict_do_nothing vals tbl)
   \<and> fst (insert_on_conflict_do_nothing vals (snd (insert_on_conflict_do_nothing vals tbl))) = 0
   \<and> (\<exists>added. snd (insert_on_conflict_do_nothing vals tbl) = tbl @ added)
   \<and> (hash r \<in> set (map hash tbl) \<longrightarrow> insert_on_conflict_do_nothing [r] tbl = (0, tbl))"
proof -
  let ?t1 = "snd (insert_on_conflict_do_nothing vals tbl)"
  have sub: "set (map hash vals) \<subseteq> set (map hash (snd (0::nat, ?t1)))"
    using foldl_insert_row_hashes [of "(0, tbl)" vals]
    by (simp add: insert_on_conflict_do_nothing_def)
  have again: "insert_on_conflict_do_nothing vals ?t1 = (0, ?t1)"
    unfolding insert_on_conflict_do_nothing_def [of vals ?t1]
    by (rule foldl_insert_row_known [OF sub])
  have ext: "\<exists>added. ?t1 = tbl @ added"
    using foldl_insert_row_extends [of "(0, tbl)" vals]
    by (simp add: insert_on_conflict_do_nothing_def)
  have one: "hash r \<in> set (map hash tbl) \<longrightarrow> insert_on_conflict_do_nothing [r] tbl = (0, tbl)"
    by (simp add: insert_on_conflict_do_nothing_def insert_row_def)
  show ?thesis using again ext one by simp
qed

theorem insert_twice_idempotent_witness:
  "hash (row_of ''0xa'' ''0xt2'') \<in> set (map hash [row_of ''0xa'' ''0xt1''])
   \<and> insert_on_conflict_do_nothing [row_of ''0xa'' ''0xt2''] [row_of ''0xa'' ''0xt1'']
       = (0, [row_of ''0xa'' ''0xt1''])"
  using insert_twice_idempotent [of "[row_of ''0xa'' ''0xt2'']" "[row_of ''0xa'' ''0xt1'']" "row_of ''0xa'' ''0xt2''"]
  by (simp add: row_of_def)

subsection \<open>Facts about the world and the loop head\<close>

lemma emit_emit: "emit b (emit a w) = emit (a @ b) w"
  by (simp add: emit_def)

lemma emit_table: "orders_v23 (emit es w) = orders_v23 w"
  by (simp add: emit_def)

lemma emit_trace: "trace (emit es w) = trace w @ es"
  by (simp add: emit_def)

lemma loop_exit:
  "\<not> loop_cond details st \<Longrightarrow> fetchOrders_loop env sd details ios st w = (Returned, st, w)"
  by (cases ios) simp_all

lemma build_url_chain:
  "buildFetchOrdersURL c ps = Inr u \<Longrightarrow> \<exists>u'. buildFetchOrdersURL c ps' = Inr u'"
  by (auto simp: buildFetchOrdersURL_def split: sum.splits prod.splits)

lemma parseSeaportOrder_returns:
  "\<exists>p lg. parseSeaportOrder lib c r = (Inr p, lg)"
  by (auto simp: parseSeaportOrder_def split: sum.splits)

subsection \<open>The rate-limit policy of the loop\<close>

lemma request_failure_retry:
  assumes "loop_cond details st"
    and "buildFetchOrdersURL (chainId env) (fetchOrders_params sd details st) = Inr u"
    and "reply io = Inl e"
    and "response_status e = Some 429" and "truthy (cursor st)"
  shows "fetchOrders_loop env sd details (io # rest) st w
           = fetchOrders_loop env sd details rest st (emit (retry_events env u e) w)"
  using assms
  by (simp add: fetchOrders_iteration_def fetchOrders_try_def fetchOrders_catch_def
      retry_events_def emit_emit Let_def)

lemma request_failure_retry_n:
  assumes "loop_cond details st"
    and "buildFetchOrdersURL (chainId env) (fetchOrders_params sd details st) = Inr u"
    and "reply io = Inl e"
    and "response_status e = Some 429" and "truthy (cursor st)"
  shows "fetchOrders_loop env sd details (replicate n io @ rest) st w
           = fetchOrders_loop env sd details rest st
               (emit (concat (replicate n (retry_events env u e))) w)"
proof (induction n arbitrary: w)
  case 0
  show ?case by (simp add: emit_def)
next
  case (Suc n)
  have "fetchOrders_loop env sd details (replicate (Suc n) io @ rest) st w
          = fetchOrders_loop env sd details (replicate n io @ rest) st (emit (retry_events env u e) w)"
    using request_failure_retry [OF assms] by simp
  also have "\<dots> = fetchOrders_loop env sd details rest st
               (emit (concat (replicate n (retry_events env u e))) (emit (retry_events env u e) w))"
    by (rule Suc.IH)
  finally show ?case by (simp add: emit_emit)
qed

lemma request_failure_propagates:
  assumes "loop_cond details st"
    and "buildFetchOrdersURL (chainId env) (fetchOrders_params sd details st) = Inr u"
    and "reply io = Inl e"
    and "\<not> (response_status e = Some 429 \<and> truthy (cursor st))"
  shows "\<exists>w'. fetchOrders_loop env sd details (io # rest) st w = (Threw e, st, w')
            \<and> filter is_sleep (trace w') = filter is_sleep (trace w)
            \<and> filter is_request (trace w') = filter is_request (trace w) @ [Request (request_url env u)]
            \<and> orders_v23 w' = orders_v23 w"
  using assms
  by (auto simp: fetchOrders_iteration_def fetchOrders_try_def fetchOrders_catch_def
      emit_def Let_def is_sleep_def is_request_def)

lemma show_nat_50: "show_nat 50 = ''50''"
  by code_simp

text \<open>
  C2. In an iteration whose page request fails: when the failure is a 429 and the cursor
  is truthy, the loop writes its log lines, waits 5000 ms and goes round again with the
  loop variables unchanged, so that the same request is issued again, and it does so for
  any number \<open>n\<close> of consecutive such failures; in every other case (a 429 with no truthy
  cursor, or any other failure) the error leaves \<open>fetchOrders\<close> after that single
  request, with no wait.
\<close>

theorem rate_limit_retry_policy:
  assumes "loop_cond details st"
    and "buildFetchOrdersURL (chainId env) (fetchOrders_params sd details st) = Inr u"
    and "reply io = Inl e"
  shows "(response_status e = Some 429 \<and> truthy (cursor st) \<longrightarrow>
            fetchOrders_loop env sd details (replicate n io @ rest) st w
               = fetchOrders_loop env sd details rest st
                   (emit (concat (replicate n (retry_events env u e))) w))
       \<and> (\<not> (response_status e = Some 429 \<and> truthy (cursor st)) \<longrightarrow>
            (\<exists>w'. fetchOrders_loop env sd details (io # rest) st w = (Threw e, st, w')
               \<and> filter is_sleep (trace w') = filter is_sleep (trace w)
               \<and> filter is_request (trace w')
                   = filter is_request (trace w) @ [Request (request_url env u)]))"
proof (intro conjI impI)
  assume "response_status e = Some 429 \<and> truthy (cursor st)"
  then show "fetchOrders_loop env sd details (replicate n io @ rest) st w
               = fetchOrders_loop env sd details rest st
                   (emit (concat (replicate n (retry_events env u e))) w)"
    using request_failure_retry_n [OF assms] by blast
next
  assume "\<not> (response_status e = Some 429 \<and> truthy (cursor st))"
  from request_failure_propagates [OF assms this, of rest w]
  show "\<exists>w'. fetchOrders_loop env sd details (io # rest) st w = (Threw e, st, w')
               \<and> filter is_sleep (trace w') = filter is_sleep (trace w)
               \<and> filter is_request (trace w')
                   = filter is_request (trace w) @ [Request (request_url env u)]"
    by blast
qed

theorem rate_limit_retry_policy_witness:
  "fetchOrders_loop test_env Sell no_details
       (replicate 2 (failing_page rate_limited) @ []) second_page_state empty_world
     = (Pending, second_page_state,
        \<lparr> orders_v23 = [],
          trace = retry_events test_env (listings_url [(''cursor'', ''c1'')]) rate_limited
                @ retry_events test_env (listings_url [(''cursor'', ''c1'')]) rate_limited
                @ [Request (Built (listings_url [(''cursor'', ''c1'')]))] \<rparr>)
   \<and> (\<exists>w'. fetchOrders_loop test_env Sell no_details [failing_page rate_limited] initial_state empty_world
              = (Threw rate_limited, initial_state, w')
          \<and> filter is_sleep (trace w') = []
          \<and> filter is_request (trace w') = [Request (Built (listings_url []))])
   \<and> (\<exists>w'. fetchOrders_loop test_env Sell no_details [failing_page server_error] second_page_state empty_world
              = (Threw server_error, second_page_state, w')
          \<and> filter is_sleep (trace w') = []
          \<and> filter is_request (trace w') = [Request (Built (listings_url [(''cursor'', ''c1'')]))])"
proof -
  have c1: "loop_cond no_details second_page_state"
    by (simp add: loop_cond_def no_details_def second_page_state_def)
  have c0: "loop_cond no_details initial_state"
    by (simp add: loop_cond_def no_details_def initial_state_def)
  have u1: "buildFetchOrdersURL (chainId test_env) (fetchOrders_params Sell no_details second_page_state)
              = Inr (listings_url [(''cursor'', ''c1'')])"
    by (simp add: buildFetchOrdersURL_def chain_network_def test_env_def fetchOrders_params_def
        no_details_def second_page_state_def listings_url_def show_nat_50)
  have u0: "buildFetchOrdersURL (chainId test_env) (fetchOrders_params Sell no_details initial_state)
              = Inr (listings_url [])"
    by (simp add: buildFetchOrdersURL_def chain_network_def test_env_def fetchOrders_params_def
        no_details_def initial_state_def listings_url_def show_nat_50)
  have r429: "reply (failing_page rate_limited) = Inl rate_limited"
    by (simp add: failing_page_def)
  have r500: "reply (failing_page server_error) = Inl server_error"
    by (simp add: failing_page_def)
  have h1: "response_status rate_limited = Some 429 \<and> truthy (cursor second_page_state)"
    by (simp add: rate_limited_def second_page_state_def truthy_def)
  have h0: "\<not> (response_status rate_limited = Some 429 \<and> truthy (cursor initial_state))"
    by (simp add: initial_state_def truthy_def)
  have h5: "\<not> (response_status server_error = Some 429 \<and> truthy (cursor second_page_state))"
    by (simp add: server_error_def)
  have tr0: "trace empty_world = []"
    by (simp add: empty_world_def)
  have ru: "request_url test_env = Built"
    by (rule ext) (simp add: request_url_def test_env_def)
  have a: "fetchOrders_loop test_env Sell no_details
       (replicate 2 (failing_page rate_limited) @ []) second_page_state empty_world
     = fetchOrders_loop test_env Sell no_details [] second_page_state
         (emit (concat (replicate 2 (retry_events test_env (listings_url [(''cursor'', ''c1'')]) rate_limited))) empty_world)"
    using rate_limit_retry_policy [OF c1 u1 r429, where n=2 and rest="[]" and w=empty_world] h1 by blast
  have a': "fetchOrders_loop test_env Sell no_details
       (replicate 2 (failing_page rate_limited) @ []) second_page_state empty_world
     = (Pending, second_page_state,
        \<lparr> orders_v23 = [],
          trace = retry_events test_env (listings_url [(''cursor'', ''c1'')]) rate_limited
                @ retry_events test_env (listings_url [(''cursor'', ''c1'')]) rate_limited
                @ [Request (Built (listings_url [(''cursor'', ''c1'')]))] \<rparr>)"
    unfolding a using c1 u1
    by (simp add: emit_def empty_world_def ru numeral_2_eq_2)
  have b: "\<exists>w'. fetchOrders_loop test_env Sell no_details [failing_page rate_limited] initial_state empty_world
              = (Threw rate_limited, initial_state, w')
          \<and> filter is_sleep (trace w') = []
          \<and> filter is_request (trace w') = [Request (Built (listings_url []))]"
    using rate_limit_retry_policy [OF c0 u0 r429, where rest="[]" and w=empty_world] h0
    by (simp add: tr0 ru del: fetchOrders_loop.simps)
  have c: "\<exists>w'. fetchOrders_loop test_env Sell no_details [failing_page server_error] second_page_state empty_world
              = (Threw server_error, second_page_state, w')
          \<and> filter is_sleep (trace w') = []
          \<and> filter is_request (trace w') = [Request (Built (listings_url [(''cursor'', ''c1'')]))]"
    using rate_limit_retry_policy [OF c1 u1 r500, where rest="[]" and w=empty_world] h5
    by (simp add: tr0 ru del: fetchOrders_loop.simps)
  show ?thesis using a' b c by blast
qed

subsection \<open>The termination heuristic of the loop\<close>

lemma filter_request_logged: "filter is_request (map Logged ls) = []"
  by (induction ls) (simp_all add: is_request_def)

lemma db_insert_requests:
  "filter is_request (trace (snd (db_insert fault vals w))) = filter is_request (trace w)"
  by (simp add: db_insert_def emit_def Let_def is_request_def split: option.splits prod.splits)

lemma enqueue_parsed_requests:
  "filter is_request (trace (snd (enqueue_parsed fault acc w))) = filter is_request (trace w)"
  by (simp add: enqueue_parsed_def addToRelayOrdersQueue_def emit_def is_request_def)

lemma fetchOrders_persist_requests:
  "filter is_request (trace (snd (snd (fetchOrders_persist fault acc st w)))) = filter is_request (trace w)"
  using db_insert_requests [of fault "row_values acc" w]
  by (auto simp: fetchOrders_persist_def split: prod.splits sum.splits)

lemma fetchOrders_try_requests:
  "filter is_request (trace (snd (snd (fetchOrders_try env io st w)))) = filter is_request (trace w)"
proof (cases "reply io")
  case (Inl e)
  then show ?thesis by (simp add: fetchOrders_try_def)
next
  case (Inr response)
  obtain herr acc where rh: "run_handlers (fetchOrders_handleOrder (sdk env) (chainId env))
       (data_orders response) empty_acc = (herr, acc)"
    by (cases "run_handlers (fetchOrders_handleOrder (sdk env) (chainId env)) (data_orders response) empty_acc")
  let ?st1 = "st\<lparr> cursor := data_next response, total := total st + length (data_orders response) \<rparr>"
  let ?w1 = "emit (map Logged (page_log acc)) w"
  have w1: "filter is_request (trace ?w1) = filter is_request (trace w)"
    by (simp add: emit_def filter_request_logged)
  show ?thesis
  proof (cases herr)
    case (Some e)
    with Inr rh w1 show ?thesis by (simp add: fetchOrders_try_def Let_def)
  next
    case None
    obtain r st2 w2 where p: "fetchOrders_persist (insert_fault io) acc ?st1 ?w1 = (r, st2, w2)"
      by (cases "fetchOrders_persist (insert_fault io) acc ?st1 ?w1")
    have w2: "filter is_request (trace w2) = filter is_request (trace w)"
      using fetchOrders_persist_requests [of "insert_fault io" acc ?st1 ?w1] p w1 by simp
    show ?thesis
    proof (cases r)
      case (Some e)
      with Inr rh None p w2 show ?thesis by (simp add: fetchOrders_try_def Let_def)
    next
      case None': None
      obtain r3 w3 where q: "enqueue_parsed (enqueue_fault io) acc w2 = (r3, w3)"
        by (cases "enqueue_parsed (enqueue_fault io) acc w2")
      have "filter is_request (trace w3) = filter is_request (trace w)"
        using enqueue_parsed_requests [of "enqueue_fault io" acc w2] q w2 by simp
      with Inr rh None p None' q show ?thesis by (simp add: fetchOrders_try_def Let_def)
    qed
  qed
qed

lemma fetchOrders_catch_requests:
  "filter is_request (trace (snd (fetchOrders_catch e st w))) = filter is_request (trace w)"
  by (simp add: fetchOrders_catch_def emit_def Let_def is_request_def)

lemma fetchOrders_iteration_requests:
  "filter is_request (trace (snd (snd (fetchOrders_iteration env io st w)))) = filter is_request (trace w)"
proof -
  obtain r st1 w1 where t: "fetchOrders_try env io st w = (r, st1, w1)"
    by (cases "fetchOrders_try env io st w")
  have w1: "filter is_request (trace w1) = filter is_request (trace w)"
    using fetchOrders_try_requests [of env io st w] t by simp
  show ?thesis
  proof (cases r)
    case None
    with t w1 show ?thesis by (simp add: fetchOrders_iteration_def)
  next
    case (Some e)
    obtain r2 w2 where c: "fetchOrders_catch e st1 w1 = (r2, w2)"
      by (cases "fetchOrders_catch e st1 w1")
    have "filter is_request (trace w2) = filter is_request (trace w)"
      using fetchOrders_catch_requests [of e st1 w1] c w1 by simp
    with t Some c show ?thesis by (simp add: fetchOrders_iteration_def)
  qed
qed

lemma fetchOrders_try_sets_done:
  assumes "reply io = Inr response"
    and "run_handlers (fetchOrders_handleOrder (sdk env) (chainId env))
           (data_orders response) empty_acc = (None, acc)"
    and "row_values acc \<noteq> []"
    and "insert_fault io = None"
    and "fst (insert_on_conflict_do_nothing (row_values acc) (orders_v23 w)) = 0"
  shows "is_done (fst (snd (fetchOrders_try env io st w)))"
  using assms
  by (auto simp: fetchOrders_try_def fetchOrders_persist_def db_insert_def emit_def Let_def
      split: prod.splits option.splits)

lemma fetchOrders_iteration_state:
  "fst (snd (fetchOrders_iteration env io st w)) = fst (snd (fetchOrders_try env io st w))"
  by (simp add: fetchOrders_iteration_def split: prod.splits option.splits)

lemma fetchOrders_try_empty_page:
  assumes "reply io = Inr response" and "data_orders response = []"
  shows "fetchOrders_try env io st w = (None, st\<lparr> cursor := data_next response \<rparr>, w)"
  using assms
  by (simp add: fetchOrders_try_def fetchOrders_persist_def enqueue_parsed_def empty_acc_def
      emit_def Let_def)

text \<open>
  C1. In an iteration of \<open>fetchOrders\<close> whose request succeeds: if the handlers produce a
  non-empty batch and the insert returns no row, the iteration sets \<open>done\<close> and the run
  ends (it returns or throws) without another request, whatever pages the feed would
  still serve; if the page has no record, \<open>done\<close> stays unset, the loop goes on to the
  next request with the cursor of the reply, and with no further reply it is still
  running.
\<close>

theorem termination_heuristic:
  assumes "loop_cond details st"
    and "buildFetchOrdersURL (chainId env) (fetchOrders_params sd details st) = Inr u"
    and "reply io = Inr response"
  shows "(run_handlers (fetchOrders_handleOrder (sdk env) (chainId env))
              (data_orders response) empty_acc = (None, acc)
          \<and> row_values acc \<noteq> [] \<and> insert_fault io = None
          \<and> fst (insert_on_conflict_do_nothing (row_values acc) (orders_v23 w)) = 0
          \<longrightarrow> (\<exists>out st' w'. fetchOrders_loop env sd details (io # rest) st w = (out, st', w')
                 \<and> out \<noteq> Pending \<and> is_done st'
                 \<and> filter is_request (trace w')
                     = filter is_request (trace w) @ [Request (request_url env u)]))
       \<and> (data_orders response = []
          \<longrightarrow> fetchOrders_loop env sd details (io # rest) st w
                = fetchOrders_loop env sd details rest (st\<lparr> cursor := data_next response \<rparr>)
                    (emit [Request (request_url env u)] w)
              \<and> loop_cond details (st\<lparr> cursor := data_next response \<rparr>)
              \<and> fst (fetchOrders_loop env sd details [io] st w) = Pending)"
proof (rule conjI; rule impI)
  let ?w0 = "emit [Request (request_url env u)] w"
  assume h: "run_handlers (fetchOrders_handleOrder (sdk env) (chainId env))
              (data_orders response) empty_acc = (None, acc)
          \<and> row_values acc \<noteq> [] \<and> insert_fault io = None
          \<and> fst (insert_on_conflict_do_nothing (row_values acc) (orders_v23 w)) = 0"
  obtain r st1 w1 where it: "fetchOrders_iteration env io st ?w0 = (r, st1, w1)"
    by (cases "fetchOrders_iteration env io st ?w0")
  have "is_done (fst (snd (fetchOrders_try env io st ?w0)))"
    using fetchOrders_try_sets_done [OF assms(3), of env acc ?w0 st] h by (simp add: emit_table)
  then have d: "is_done st1"
    using fetchOrders_iteration_state [of env io st ?w0] it by simp
  have rq: "filter is_request (trace w1) = filter is_request (trace w) @ [Request (request_url env u)]"
    using fetchOrders_iteration_requests [of env io st ?w0] it
    by (simp add: emit_def is_request_def)
  show "\<exists>out st' w'. fetchOrders_loop env sd details (io # rest) st w = (out, st', w')
                 \<and> out \<noteq> Pending \<and> is_done st'
                 \<and> filter is_request (trace w')
                     = filter is_request (trace w) @ [Request (request_url env u)]"
  proof (cases r)
    case None
    have "\<not> loop_cond details st1" using d by (simp add: loop_cond_def)
    then have "fetchOrders_loop env sd details rest st1 w1 = (Returned, st1, w1)"
      by (rule loop_exit)
    then have "fetchOrders_loop env sd details (io # rest) st w = (Returned, st1, w1)"
      using assms(1,2) it None by simp
    with d rq show ?thesis by simp
  next
    case (Some e)
    then have "fetchOrders_loop env sd details (io # rest) st w = (Threw e, st1, w1)"
      using assms(1,2) it by simp
    with d rq show ?thesis by simp
  qed
next
  assume e: "data_orders response = []"
  have t: "fetchOrders_iteration env io st (emit [Request (request_url env u)] w)
             = (None, st\<lparr> cursor := data_next response \<rparr>, emit [Request (request_url env u)] w)"
    using fetchOrders_try_empty_page [OF assms(3) e] by (simp add: fetchOrders_iteration_def)
  have lc: "loop_cond details (st\<lparr> cursor := data_next response \<rparr>)"
    using assms(1) by (auto simp: loop_cond_def split: option.splits)
  obtain u' where u': "buildFetchOrdersURL (chainId env)
       (fetchOrders_params sd details (st\<lparr> cursor := data_next response \<rparr>)) = Inr u'"
    using build_url_chain [OF assms(2)] by blast
  show "fetchOrders_loop env sd details (io # rest) st w
          = fetchOrders_loop env sd details rest (st\<lparr> cursor := data_next response \<rparr>)
              (emit [Request (request_url env u)] w)
        \<and> loop_cond details (st\<lparr> cursor := data_next response \<rparr>)
        \<and> fst (fetchOrders_loop env sd details [io] st w) = Pending"
    using assms(1,2) t lc u' by simp
qed

lemma lower_examples:
  "toLowerCase ''0xAA'' = ''0xaa''" "toLowerCase ''0xBB'' = ''0xbb''"
  "toLowerCase ''0xT1'' = ''0xt1''" "toLowerCase ''0xT2'' = ''0xt2''"
  "toLowerCase ''0xMaKer'' = ''0xmaker''" "toLowerCase ''0xAB'' = ''0xab''"
  by code_simp+

lemma handle_known_order:
  "run_handlers (fetchOrders_handleOrder (sdk test_env) (chainId test_env))
     [mk_order ''0xAA'' ''0x14'' [mk_item ''0xT1'']] empty_acc
   = (None, \<lparr> parsedOrders = [(SeaportV14, orderComponent (mk_order ''0xAA'' ''0x14'' [mk_item ''0xT1'']))],
              row_values = [\<lparr> hash = ''0xaa'', target = ''0xt1'', maker = ''0xmaker'',
                               created_at = ''2023-05-01T00:00:00'',
                               data = protocol_data (mk_order ''0xAA'' ''0x14'' [mk_item ''0xT1'']),
                               source = ''opensea'' \<rparr>],
              page_log = [] \<rparr>)"
  by (simp add: fetchOrders_handleOrder_def parseSeaportOrder_def parse_try_def test_env_def
      test_sdk_def mk_order_def mk_item_def orderComponent_def push_parsed_def
      target_lowered_each_def parsed_contract_def first_offer_token_def empty_acc_def
      lower_examples Let_def)

theorem termination_heuristic_witness:
  "(\<exists>out st' w'. fetchOrders_loop test_env Sell no_details
         [page_of (Some ''c1'') [mk_order ''0xAA'' ''0x14'' [mk_item ''0xT1'']],
          page_of (Some ''c2'') [mk_order ''0xBB'' ''0x14'' [mk_item ''0xT2'']]]
         initial_state synced_world = (out, st', w')
       \<and> out \<noteq> Pending \<and> is_done st'
       \<and> filter is_request (trace w') = [Request (Built (listings_url []))])
   \<and> fst (fetchOrders_loop test_env Sell no_details [page_of (Some ''c1'') []] initial_state empty_world)
       = Pending"
proof -
  let ?a = "mk_order ''0xAA'' ''0x14'' [mk_item ''0xT1'']"
  let ?acc = "\<lparr> parsedOrders = [(SeaportV14, orderComponent ?a)],
              row_values = [\<lparr> hash = ''0xaa'', target = ''0xt1'', maker = ''0xmaker'',
                               created_at = ''2023-05-01T00:00:00'',
                               data = protocol_data ?a, source = ''opensea'' \<rparr>],
              page_log = [] \<rparr>"
  have c0: "loop_cond no_details initial_state"
    by (simp add: loop_cond_def no_details_def initial_state_def)
  have u0: "buildFetchOrdersURL (chainId test_env) (fetchOrders_params Sell no_details initial_state)
              = Inr (listings_url [])"
    by (simp add: buildFetchOrdersURL_def chain_network_def test_env_def fetchOrders_params_def
        no_details_def initial_state_def listings_url_def show_nat_50)
  have ra: "reply (page_of (Some ''c1'') [?a]) = Inr \<lparr> data_next = Some ''c1'', data_orders = [?a] \<rparr>"
    by (simp add: page_of_def)
  have re: "reply (page_of (Some ''c1'') []) = Inr \<lparr> data_next = Some ''c1'', data_orders = [] \<rparr>"
    by (simp add: page_of_def)
  have ha: "run_handlers (fetchOrders_handleOrder (sdk test_env) (chainId test_env))
              (data_orders \<lparr> data_next = Some ''c1'', data_orders = [?a] \<rparr>) empty_acc = (None, ?acc)
          \<and> row_values ?acc \<noteq> [] \<and> insert_fault (page_of (Some ''c1'') [?a]) = None
          \<and> fst (insert_on_conflict_do_nothing (row_values ?acc) (orders_v23 synced_world)) = 0"
    using handle_known_order
    by (simp add: page_of_def synced_world_def row_of_def insert_on_conflict_do_nothing_def
        insert_row_def)
  have he: "data_orders \<lparr> data_next = Some ''c1'', data_orders = ([]::SeaportOrder list) \<rparr> = []"
    by simp
  have tr0: "trace synced_world = []"
    by (simp add: synced_world_def)
  have ru: "request_url test_env = Built"
    by (rule ext) (simp add: request_url_def test_env_def)
  have a: "\<exists>out st' w'. fetchOrders_loop test_env Sell no_details
         [page_of (Some ''c1'') [?a], page_of (Some ''c2'') [mk_order ''0xBB'' ''0x14'' [mk_item ''0xT2'']]]
         initial_state synced_world = (out, st', w')
       \<and> out \<noteq> Pending \<and> is_done st'
       \<and> filter is_request (trace w') = [Request (Built (listings_url []))]"
    using termination_heuristic [OF c0 u0 ra, where acc="?acc" and w=synced_world
        and rest="[page_of (Some ''c2'') [mk_order ''0xBB'' ''0x14'' [mk_item ''0xT2'']]]"] ha
    by (simp add: tr0 ru del: fetchOrders_loop.simps)
  have b: "fst (fetchOrders_loop test_env Sell no_details [page_of (Some ''c1'') []] initial_state empty_world)
       = Pending"
    using termination_heuristic [OF c0 u0 re, where w=empty_world and rest="[]" and acc=empty_acc] he
    by blast
  show ?thesis using a b by blast
qed

subsection \<open>Parse resilience\<close>

lemma parse_try_parseSeaportOrder:
  "parse_try lib c r = Inr v \<Longrightarrow> parseSeaportOrder lib c r = (Inr v, [])"
  by (simp add: parseSeaportOrder_def)

lemma parse_try_unrecognized:
  "Some (protocol_address r) \<noteq> V14_Exchange lib c \<Longrightarrow> Some (protocol_address r) \<noteq> V15_Exchange lib c
   \<Longrightarrow> parse_try lib c r = Inr None"
  by (simp add: parse_try_def)

lemma handle_parsed:
  assumes "parse_try lib c r = Inr (Some p)"
    and "target_lowered_each lib (Some p) r = Inr t"
  shows "fetchOrders_handleOrder lib c r acc
           = (None, acc\<lparr> parsedOrders := parsedOrders acc @ [(parsed_kind p, params (parsed_order p))],
                          row_values := row_values acc @ [expected_row r t] \<rparr>)"
  using assms parse_try_parseSeaportOrder [OF assms(1)]
  by (simp add: fetchOrders_handleOrder_def push_parsed_def expected_row_def Let_def)

lemma handle_unrecognized:
  assumes "Some (protocol_address r) \<noteq> V14_Exchange lib c"
    and "Some (protocol_address r) \<noteq> V15_Exchange lib c"
    and "offer (parameters (protocol_data r)) = item # items"
  shows "fetchOrders_handleOrder lib c r acc
           = (None, acc\<lparr> row_values := row_values acc @ [expected_row r (toLowerCase (token item))] \<rparr>)"
  using assms(3) parse_try_parseSeaportOrder [OF parse_try_unrecognized [OF assms(1,2)]]
  by (simp add: fetchOrders_handleOrder_def push_parsed_def expected_row_def Let_def
      target_lowered_each_def parsed_contract_def first_offer_token_def)

lemma insert_two_fresh:
  assumes "hash ra \<noteq> hash rb"
    and "hash ra \<notin> set (map hash tbl)" and "hash rb \<notin> set (map hash tbl)"
  shows "insert_on_conflict_do_nothing [ra, rb] tbl = (2, tbl @ [ra, rb])"
  using assms by (auto simp: insert_on_conflict_do_nothing_def insert_row_def)

text \<open>
  C6. A page of \<open>fetchOrders\<close> that holds, in either order, one record \<open>a\<close> from which the
  library builds an order (and for which a target is found) and one record \<open>b\<close> whose
  protocol address is in neither exchange table, \<open>b\<close> having a first offer item: the
  \<open>try\<close> block submits a batch of exactly two rows, the row of \<open>b\<close> taking the lowercased
  token of its first offer item as target, and then enqueues exactly one parsed order,
  that of \<open>a\<close>, with the priority flag. When the two lowercased hashes differ and neither
  is stored yet, the table grows by exactly these two rows.
\<close>

theorem parse_resilience:
  assumes "reply io = Inr response"
    and "data_orders response = [a, b] \<or> data_orders response = [b, a]"
    and "parse_try (sdk env) (chainId env) a = Inr (Some p)"
    and "target_lowered_each (sdk env) (Some p) a = Inr ta"
    and "Some (protocol_address b) \<noteq> V14_Exchange (sdk env) (chainId env)"
    and "Some (protocol_address b) \<noteq> V15_Exchange (sdk env) (chainId env)"
    and "offer (parameters (protocol_data b)) = item # items"
    and "insert_fault io = None"
  shows "\<exists>st' w' rows.
           fetchOrders_try env io st w = (enqueue_fault io, st', w')
         \<and> trace w' = trace w @ [Insert rows, Enqueue [(parsed_kind p, params (parsed_order p))] True]
         \<and> rows = (if data_orders response = [a, b]
                    then [expected_row a ta, expected_row b (toLowerCase (token item))]
                    else [expected_row b (toLowerCase (token item)), expected_row a ta])
         \<and> orders_v23 w' = snd (insert_on_conflict_do_nothing rows (orders_v23 w))
         \<and> (toLowerCase (order_hash a) \<noteq> toLowerCase (order_hash b)
              \<and> toLowerCase (order_hash a) \<notin> set (map hash (orders_v23 w))
              \<and> toLowerCase (order_hash b) \<notin> set (map hash (orders_v23 w))
            \<longrightarrow> orders_v23 w' = orders_v23 w @ rows)"
proof -
  let ?h = "fetchOrders_handleOrder (sdk env) (chainId env)"
  let ?ra = "expected_row a ta"
  let ?rb = "expected_row b (toLowerCase (token item))"
  let ?pq = "[(parsed_kind p, params (parsed_order p))]"
  have ha: "\<And>acc. ?h a acc = (None, acc\<lparr> parsedOrders := parsedOrders acc @ ?pq,
                                           row_values := row_values acc @ [?ra] \<rparr>)"
    by (rule handle_parsed [OF assms(3,4)])
  have hb: "\<And>acc. ?h b acc = (None, acc\<lparr> row_values := row_values acc @ [?rb] \<rparr>)"
    by (rule handle_unrecognized [OF assms(5,6,7)])
  have hash_a: "hash ?ra = toLowerCase (order_hash a)" and hash_b: "hash ?rb = toLowerCase (order_hash b)"
    by (simp_all add: expected_row_def)
  show ?thesis
  proof (cases "data_orders response = [a, b]")
    case True
    have rh: "run_handlers ?h (data_orders response) empty_acc
                = (None, \<lparr> parsedOrders = ?pq, row_values = [?ra, ?rb], page_log = [] \<rparr>)"
      using True by (simp add: ha hb empty_acc_def)
    have t: "fetchOrders_try env io st w
        = (enqueue_fault io,
           fst (snd (fetchOrders_try env io st w)),
           \<lparr> orders_v23 = snd (insert_on_conflict_do_nothing [?ra, ?rb] (orders_v23 w)),
             trace = trace w @ [Insert [?ra, ?rb], Enqueue ?pq True] \<rparr>)"
      using assms(1,8) rh
      by (simp add: fetchOrders_try_def fetchOrders_persist_def db_insert_def enqueue_parsed_def
          addToRelayOrdersQueue_def emit_def Let_def split: prod.splits)
    have fresh: "toLowerCase (order_hash a) \<noteq> toLowerCase (order_hash b)
              \<and> toLowerCase (order_hash a) \<notin> set (map hash (orders_v23 w))
              \<and> toLowerCase (order_hash b) \<notin> set (map hash (orders_v23 w))
            \<longrightarrow> snd (insert_on_conflict_do_nothing [?ra, ?rb] (orders_v23 w)) = orders_v23 w @ [?ra, ?rb]"
      using insert_two_fresh [of ?ra ?rb "orders_v23 w"] hash_a hash_b by simp
    show ?thesis
      apply (rule exI [of _ "fst (snd (fetchOrders_try env io st w))"])
      apply (rule exI [of _ "\<lparr> orders_v23 = snd (insert_on_conflict_do_nothing [?ra, ?rb] (orders_v23 w)),
             trace = trace w @ [Insert [?ra, ?rb], Enqueue ?pq True] \<rparr>"])
      apply (rule exI [of _ "[?ra, ?rb]"])
      using t True fresh by simp
  next
    case False
    with assms(2) have ba: "data_orders response = [b, a]" by simp
    have rh: "run_handlers ?h (data_orders response) empty_acc
                = (None, \<lparr> parsedOrders = ?pq, row_values = [?rb, ?ra], page_log = [] \<rparr>)"
      using ba by (simp add: ha hb empty_acc_def)
    have t: "fetchOrders_try env io st w
        = (enqueue_fault io,
           fst (snd (fetchOrders_try env io st w)),
           \<lparr> orders_v23 = snd (insert_on_conflict_do_nothing [?rb, ?ra] (orders_v23 w)),
             trace = trace w @ [Insert [?rb, ?ra], Enqueue ?pq True] \<rparr>)"
      using assms(1,8) rh
      by (simp add: fetchOrders_try_def fetchOrders_persist_def db_insert_def enqueue_parsed_def
          addToRelayOrdersQueue_def emit_def Let_def split: prod.splits)
    have fresh: "toLowerCase (order_hash a) \<noteq> toLowerCase (order_hash b)
              \<and> toLowerCase (order_hash a) \<notin> set (map hash (orders_v23 w))
              \<and> toLowerCase (order_hash b) \<notin> set (map hash (orders_v23 w))
            \<longrightarrow> snd (insert_on_conflict_do_nothing [?rb, ?ra] (orders_v23 w)) = orders_v23 w @ [?rb, ?ra]"
      using insert_two_fresh [of ?rb ?ra "orders_v23 w"] hash_a hash_b by auto
    show ?thesis
      apply (rule exI [of _ "fst (snd (fetchOrders_try env io st w))"])
      apply (rule exI [of _ "\<lparr> orders_v23 = snd (insert_on_conflict_do_nothing [?rb, ?ra] (orders_v23 w)),
             trace = trace w @ [Insert [?rb, ?ra], Enqueue ?pq True] \<rparr>"])
      apply (rule exI [of _ "[?rb, ?ra]"])
      using t False fresh by simp
  qed
qed

theorem parse_resilience_witness:
  "\<exists>st' w'.
      fetchOrders_try test_env
        (page_of (Some ''c1'') [mk_order ''0xAA'' ''0x14'' [mk_item ''0xT1''],
                                mk_order ''0xBB'' ''0x99'' [mk_item ''0xT2'']])
        initial_state empty_world = (None, st', w')
    \<and> trace w' = [Insert [expected_row (mk_order ''0xAA'' ''0x14'' [mk_item ''0xT1'']) ''0xt1'',
                           expected_row (mk_order ''0xBB'' ''0x99'' [mk_item ''0xT2'']) ''0xt2''],
                   Enqueue [(SeaportV14, orderComponent (mk_order ''0xAA'' ''0x14'' [mk_item ''0xT1'']))] True]
    \<and> orders_v23 w' = [expected_row (mk_order ''0xAA'' ''0x14'' [mk_item ''0xT1'']) ''0xt1'',
                        expected_row (mk_order ''0xBB'' ''0x99'' [mk_item ''0xT2'']) ''0xt2'']"
proof -
  let ?a = "mk_order ''0xAA'' ''0x14'' [mk_item ''0xT1'']"
  let ?b = "mk_order ''0xBB'' ''0x99'' [mk_item ''0xT2'']"
  let ?p = "\<lparr> parsed_kind = SeaportV14, parsed_order = \<lparr> order_chain = 1, params = orderComponent ?a \<rparr> \<rparr>"
  let ?resp = "\<lparr> data_next = Some ''c1'', data_orders = [?a, ?b] \<rparr>"
  have h1: "reply (page_of (Some ''c1'') [?a, ?b]) = Inr ?resp"
    by (simp add: page_of_def)
  have h2: "data_orders ?resp = [?a, ?b] \<or> data_orders ?resp = [?b, ?a]"
    by simp
  have h3: "parse_try (sdk test_env) (chainId test_env) ?a = Inr (Some ?p)"
    by (simp add: parse_try_def test_env_def test_sdk_def mk_order_def orderComponent_def)
  have h4: "target_lowered_each (sdk test_env) (Some ?p) ?a = Inr ''0xt1''"
    by (simp add: target_lowered_each_def parsed_contract_def test_env_def test_sdk_def
        mk_order_def mk_item_def orderComponent_def lower_examples)
  have h5: "Some (protocol_address ?b) \<noteq> V14_Exchange (sdk test_env) (chainId test_env)"
    by (simp add: test_env_def test_sdk_def mk_order_def)
  have h6: "Some (protocol_address ?b) \<noteq> V15_Exchange (sdk test_env) (chainId test_env)"
    by (simp add: test_env_def test_sdk_def mk_order_def)
  have h7: "offer (parameters (protocol_data ?b)) = mk_item ''0xT2'' # []"
    by (simp add: mk_order_def)
  have h8: "insert_fault (page_of (Some ''c1'') [?a, ?b]) = None"
    by (simp add: page_of_def)
  have fresh: "toLowerCase (order_hash ?a) \<noteq> toLowerCase (order_hash ?b)
              \<and> toLowerCase (order_hash ?a) \<notin> set (map hash (orders_v23 empty_world))
              \<and> toLowerCase (order_hash ?b) \<notin> set (map hash (orders_v23 empty_world))"
    by (simp add: mk_order_def empty_world_def lower_examples)
  have tok: "toLowerCase (token (mk_item ''0xT2'')) = ''0xt2''"
    by (simp add: mk_item_def lower_examples)
  have q: "enqueue_fault (page_of (Some ''c1'') [?a, ?b]) = None"
    by (simp add: page_of_def)
  have e0: "trace empty_world = []" "orders_v23 empty_world = []"
    by (simp_all add: empty_world_def)
  from parse_resilience [OF h1 h2 h3 h4 h5 h6 h7 h8, where st=initial_state and w=empty_world]
  obtain st' w' rows where
    r: "fetchOrders_try test_env (page_of (Some ''c1'') [?a, ?b]) initial_state empty_world
          = (enqueue_fault (page_of (Some ''c1'') [?a, ?b]), st', w')"
    and tr: "trace w' = trace empty_world @ [Insert rows, Enqueue [(parsed_kind ?p, params (parsed_order ?p))] True]"
    and rows: "rows = (if data_orders ?resp = [?a, ?b]
                    then [expected_row ?a ''0xt1'', expected_row ?b (toLowerCase (token (mk_item ''0xT2'')))]
                    else [expected_row ?b (toLowerCase (token (mk_item ''0xT2''))), expected_row ?a ''0xt1''])"
    and tbl: "toLowerCase (order_hash ?a) \<noteq> toLowerCase (order_hash ?b)
              \<and> toLowerCase (order_hash ?a) \<notin> set (map hash (orders_v23 empty_world))
              \<and> toLowerCase (order_hash ?b) \<notin> set (map hash (orders_v23 empty_world))
            \<longrightarrow> orders_v23 w' = orders_v23 empty_world @ rows"
    by blast
  have rows': "rows = [expected_row ?a ''0xt1'', expected_row ?b ''0xt2'']"
    using rows tok by simp
  have "orders_v23 w' = rows" using tbl fresh e0 by simp
  then show ?thesis using r tr rows' q e0 by simp
qed

subsection \<open>The unguarded first offer item and the hash column\<close>

lemma first_offer_token_empty:
  "offer (parameters (protocol_data r)) = [] \<Longrightarrow>
   first_offer_token r = Inl (TypeError ''Cannot read properties of undefined (reading token)'')"
  by (simp add: first_offer_token_def)

lemma first_offer_token_status:
  "first_offer_token r = Inl e \<Longrightarrow> response_status e = None"
  by (auto simp: first_offer_token_def TypeError_def split: list.splits)

lemma target_lowered_each_fallback:
  "\<not> truthy (parsed_contract lib p) \<Longrightarrow>
   target_lowered_each lib p r
     = (case first_offer_token r of Inl e \<Rightarrow> Inl e | Inr t \<Rightarrow> Inr (toLowerCase t))"
  by (auto simp: target_lowered_each_def truthy_def toLowerCase_def split: option.splits)

lemma target_lowered_after_fallback:
  "\<not> truthy (parsed_contract lib p) \<Longrightarrow>
   target_lowered_after lib p r
     = (case first_offer_token r of Inl e \<Rightarrow> Inl e | Inr t \<Rightarrow> Inr (toLowerCase t))"
  by (auto simp: target_lowered_after_def truthy_def split: option.splits)

lemma target_lowered_each_status:
  "target_lowered_each lib p r = Inl e \<Longrightarrow> response_status e = None"
  by (auto simp: target_lowered_each_def Let_def dest: first_offer_token_status
      split: option.splits if_splits sum.splits)

lemma target_lowered_after_status:
  "target_lowered_after lib p r = Inl e \<Longrightarrow> response_status e = None"
  by (auto simp: target_lowered_after_def dest: first_offer_token_status
      split: option.splits if_splits sum.splits)

lemma handler_status:
  "fst (fetchOrders_handleOrder lib c r acc) = Some e \<Longrightarrow> response_status e = None"
  "fst (fetchAllOrders_handleOrder lib c r acc) = Some e \<Longrightarrow> response_status e = None"
  "fst (fetchListingsBySlug_handleOrder lib c r acc) = Some e \<Longrightarrow> response_status e = None"
  "fst (fetchCollectionOffers_handleOrder lib c r acc) = Some e \<Longrightarrow> response_status e = None"
  using parseSeaportOrder_returns [of lib c r]
  by (auto simp: fetchOrders_handleOrder_def fetchAllOrders_handleOrder_def
      fetchListingsBySlug_handleOrder_def fetchCollectionOffers_handleOrder_def Let_def
      dest: target_lowered_each_status target_lowered_after_status split: sum.splits)

lemma handler_throws:
  assumes "fst (parseSeaportOrder lib c r) = Inr p"
    and "\<not> truthy (parsed_contract lib p)"
    and "offer (parameters (protocol_data r)) = []"
  shows "fst (fetchOrders_handleOrder lib c r acc)
           = Some (TypeError ''Cannot read properties of undefined (reading token)'')"
    and "fst (fetchAllOrders_handleOrder lib c r acc)
           = Some (TypeError ''Cannot read properties of undefined (reading token)'')"
    and "fst (fetchListingsBySlug_handleOrder lib c r acc)
           = Some (TypeError ''Cannot read properties of undefined (reading token)'')"
    and "fst (fetchCollectionOffers_handleOrder lib c r acc)
           = Some (TypeError ''Cannot read properties of undefined (reading token)'')"
  using assms(1) target_lowered_each_fallback [OF assms(2), of r]
    target_lowered_after_fallback [OF assms(2), of r] first_offer_token_empty [OF assms(3)]
  by (auto simp: fetchOrders_handleOrder_def fetchAllOrders_handleOrder_def
      fetchListingsBySlug_handleOrder_def fetchCollectionOffers_handleOrder_def Let_def
      split: sum.splits prod.splits)

lemma run_handlers_fails:
  "r \<in> set os \<Longrightarrow> (\<And>acc. fst (h r acc) \<noteq> None) \<Longrightarrow> fst (run_handlers h os acc) \<noteq> None"
proof (induction os arbitrary: acc)
  case Nil
  then show ?case by simp
next
  case (Cons x os)
  obtain res acc1 where hx: "h x acc = (res, acc1)" by (cases "h x acc")
  show ?case
  proof (cases res)
    case (Some e)
    with hx show ?thesis by simp
  next
    case None
    with hx Cons.prems(2) [of acc] have "r \<noteq> x" by auto
    with Cons.prems(1) have "r \<in> set os" by simp
    from Cons.IH [OF this Cons.prems(2)] hx None show ?thesis by simp
  qed
qed

lemma run_handlers_status:
  "(\<And>r acc e. fst (h r acc) = Some e \<Longrightarrow> response_status e = None) \<Longrightarrow>
   fst (run_handlers h os acc) = Some e \<Longrightarrow> response_status e = None"
proof (induction os arbitrary: acc)
  case Nil
  then show ?case by simp
next
  case (Cons x os)
  obtain res acc1 where hx: "h x acc = (res, acc1)" by (cases "h x acc")
  show ?case
  proof (cases res)
    case (Some e')
    with hx Cons.prems(2) have "e' = e" by simp
    with Cons.prems(1) [of x acc e'] hx Some show ?thesis by simp
  next
    case None
    with hx Cons.prems(2) have "fst (run_handlers h os acc1) = Some e" by simp
    from Cons.IH [OF Cons.prems(1) this] show ?thesis by simp
  qed
qed

lemma filter_insert_logged: "filter is_insert (map Logged ls) = []"
  by (induction ls) (simp_all add: is_insert_def)

lemma process_page_handler_throws:
  assumes "fst (run_handlers h (data_orders response) empty_acc) = Some e"
  shows "\<exists>w'. process_page h io response w = (Some e, w')
            \<and> orders_v23 w' = orders_v23 w
            \<and> filter is_insert (trace w') = filter is_insert (trace w)"
proof -
  obtain acc where rh: "run_handlers h (data_orders response) empty_acc = (Some e, acc)"
    using assms by (cases "run_handlers h (data_orders response) empty_acc") simp
  show ?thesis
    by (simp add: process_page_def rh emit_def Let_def filter_insert_logged)
qed

lemma fetchOrders_loop_handler_throws:
  assumes "loop_cond details st"
    and "buildFetchOrdersURL (chainId env) (fetchOrders_params sd details st) = Inr u"
    and "reply io = Inr response"
    and "fst (run_handlers (fetchOrders_handleOrder (sdk env) (chainId env))
              (data_orders response) empty_acc) = Some e"
  shows "\<exists>st' w'. fetchOrders_loop env sd details (io # rest) st w = (Threw e, st', w')
            \<and> orders_v23 w' = orders_v23 w
            \<and> filter is_insert (trace w') = filter is_insert (trace w)"
proof -
  let ?h = "fetchOrders_handleOrder (sdk env) (chainId env)"
  obtain acc where rh: "run_handlers ?h (data_orders response) empty_acc = (Some e, acc)"
    using assms(4) by (cases "run_handlers ?h (data_orders response) empty_acc") simp
  have st: "response_status e = None"
    using run_handlers_status [of ?h "data_orders response" empty_acc e] handler_status(1) assms(4)
    by blast
  show ?thesis
    using assms(1,2,3) rh st
    by (simp add: fetchOrders_iteration_def fetchOrders_try_def fetchOrders_catch_def emit_def
        Let_def filter_insert_logged is_insert_def)
qed

text \<open>
  C10. For a record whose parse is absent, or whose parsed order gives no contract, the
  target of the row is read from the first offer item with no guard. If moreover the
  offer list is empty, the handlers of \<open>fetchOrders\<close>, \<open>fetchAllOrders\<close> and
  \<open>fetchCollectionOffers\<close> throw a TypeError, and a page that contains such a record makes
  the fetch operation throw without issuing an insert: the table is left as it was.
\<close>

theorem unguarded_first_offer:
  assumes "fst (parseSeaportOrder (sdk env) (chainId env) r) = Inr p"
    and "\<not> truthy (parsed_contract (sdk env) p)"
  shows "target_lowered_each (sdk env) p r
           = (case first_offer_token r of Inl e \<Rightarrow> Inl e | Inr t \<Rightarrow> Inr (toLowerCase t))
       \<and> target_lowered_after (sdk env) p r
           = (case first_offer_token r of Inl e \<Rightarrow> Inl e | Inr t \<Rightarrow> Inr (toLowerCase t))
       \<and> (offer (parameters (protocol_data r)) = [] \<longrightarrow>
            fst (fetchOrders_handleOrder (sdk env) (chainId env) r acc)
              = Some (TypeError ''Cannot read properties of undefined (reading token)'')
          \<and> fst (fetchAllOrders_handleOrder (sdk env) (chainId env) r acc)
              = Some (TypeError ''Cannot read properties of undefined (reading token)'')
          \<and> fst (fetchCollectionOffers_handleOrder (sdk env) (chainId env) r acc)
              = Some (TypeError ''Cannot read properties of undefined (reading token)''))
       \<and> (offer (parameters (protocol_data r)) = [] \<and> reply io = Inr response
            \<and> r \<in> set (data_orders response) \<longrightarrow>
            (loop_cond details st
               \<and> buildFetchOrdersURL (chainId env) (fetchOrders_params sd details st) = Inr u
             \<longrightarrow> (\<exists>e st' w'. fetchOrders_loop env sd details (io # rest) st w = (Threw e, st', w')
                    \<and> orders_v23 w' = orders_v23 w
                    \<and> filter is_insert (trace w') = filter is_insert (trace w)))
          \<and> (\<exists>e w'. fetchAllOrders env fromTimestamp toTimestamp cur io w = (Inl e, w')
                \<and> orders_v23 w' = orders_v23 w
                \<and> filter is_insert (trace w') = filter is_insert (trace w))
          \<and> (\<exists>e w'. fetchCollectionOffers env contr tokenId io w = (Some e, w')
                \<and> orders_v23 w' = orders_v23 w
                \<and> filter is_insert (trace w') = filter is_insert (trace w)))"
proof -
  let ?te = "TypeError ''Cannot read properties of undefined (reading token)''"
  have A: "target_lowered_each (sdk env) p r
           = (case first_offer_token r of Inl e \<Rightarrow> Inl e | Inr t \<Rightarrow> Inr (toLowerCase t))"
    by (rule target_lowered_each_fallback [OF assms(2)])
  have B: "target_lowered_after (sdk env) p r
           = (case first_offer_token r of Inl e \<Rightarrow> Inl e | Inr t \<Rightarrow> Inr (toLowerCase t))"
    by (rule target_lowered_after_fallback [OF assms(2)])
  have C: "offer (parameters (protocol_data r)) = [] \<longrightarrow>
            fst (fetchOrders_handleOrder (sdk env) (chainId env) r acc) = Some ?te
          \<and> fst (fetchAllOrders_handleOrder (sdk env) (chainId env) r acc) = Some ?te
          \<and> fst (fetchCollectionOffers_handleOrder (sdk env) (chainId env) r acc) = Some ?te"
    using handler_throws [OF assms] by blast
  have D: "offer (parameters (protocol_data r)) = [] \<and> reply io = Inr response
            \<and> r \<in> set (data_orders response) \<longrightarrow>
            (loop_cond details st
               \<and> buildFetchOrdersURL (chainId env) (fetchOrders_params sd details st) = Inr u
             \<longrightarrow> (\<exists>e st' w'. fetchOrders_loop env sd details (io # rest) st w = (Threw e, st', w')
                    \<and> orders_v23 w' = orders_v23 w
                    \<and> filter is_insert (trace w') = filter is_insert (trace w)))
          \<and> (\<exists>e w'. fetchAllOrders env fromTimestamp toTimestamp cur io w = (Inl e, w')
                \<and> orders_v23 w' = orders_v23 w
                \<and> filter is_insert (trace w') = filter is_insert (trace w))
          \<and> (\<exists>e w'. fetchCollectionOffers env contr tokenId io w = (Some e, w')
                \<and> orders_v23 w' = orders_v23 w
                \<and> filter is_insert (trace w') = filter is_insert (trace w))"
  proof (rule impI)
    assume h: "offer (parameters (protocol_data r)) = [] \<and> reply io = Inr response
            \<and> r \<in> set (data_orders response)"
    then have off: "offer (parameters (protocol_data r)) = []" and rep: "reply io = Inr response"
      and mem: "r \<in> set (data_orders response)" by simp_all
    note thr = handler_throws [OF assms off]
    obtain e1 where e1: "fst (run_handlers (fetchOrders_handleOrder (sdk env) (chainId env))
                           (data_orders response) empty_acc) = Some e1"
      using run_handlers_fails [OF mem, of "fetchOrders_handleOrder (sdk env) (chainId env)" empty_acc]
        thr(1) by fastforce
    obtain e2 where e2: "fst (run_handlers (fetchAllOrders_handleOrder (sdk env) (chainId env))
                           (data_orders response) empty_acc) = Some e2"
      using run_handlers_fails [OF mem, of "fetchAllOrders_handleOrder (sdk env) (chainId env)" empty_acc]
        thr(2) by fastforce
    obtain e3 where e3: "fst (run_handlers (fetchCollectionOffers_handleOrder (sdk env) (chainId env))
                           (data_orders response) empty_acc) = Some e3"
      using run_handlers_fails [OF mem, of "fetchCollectionOffers_handleOrder (sdk env) (chainId env)" empty_acc]
        thr(4) by fastforce
    have L: "loop_cond details st
               \<and> buildFetchOrdersURL (chainId env) (fetchOrders_params sd details st) = Inr u
             \<longrightarrow> (\<exists>e st' w'. fetchOrders_loop env sd details (io # rest) st w = (Threw e, st', w')
                    \<and> orders_v23 w' = orders_v23 w
                    \<and> filter is_insert (trace w') = filter is_insert (trace w))"
      using fetchOrders_loop_handler_throws [OF _ _ rep e1, of details st sd u rest w] by blast
    have F: "\<exists>e w'. fetchAllOrders env fromTimestamp toTimestamp cur io w = (Inl e, w')
                \<and> orders_v23 w' = orders_v23 w
                \<and> filter is_insert (trace w') = filter is_insert (trace w)"
    proof (cases "buildFetchOrdersURL (chainId env)
             \<lparr> p_overrideBaseUrl = None, p_side = Sell, p_orderBy = Some ''created_date'',
               p_orderDirection = Some ''desc'', p_contract = None, p_limit = Some 50,
               p_cursor = cur, p_listedBefore = toTimestamp, p_listedAfter = fromTimestamp \<rparr>")
      case (Inl e)
      then show ?thesis by (simp add: fetchAllOrders_def)
    next
      case (Inr u')
      from process_page_handler_throws [OF e2, of io "emit [Request (request_url env u')] w"]
      obtain w' where "process_page (fetchAllOrders_handleOrder (sdk env) (chainId env)) io response
                         (emit [Request (request_url env u')] w) = (Some e2, w')"
        and "orders_v23 w' = orders_v23 w"
        and "filter is_insert (trace w') = filter is_insert (trace w)"
        by (auto simp: emit_def is_insert_def)
      with Inr rep show ?thesis by (simp add: fetchAllOrders_def Let_def)
    qed
    have G: "\<exists>e w'. fetchCollectionOffers env contr tokenId io w = (Some e, w')
                \<and> orders_v23 w' = orders_v23 w
                \<and> filter is_insert (trace w') = filter is_insert (trace w)"
    proof -
      let ?w1 = "emit [Request (Plain (if chainId env = 1
               then ''https://api.opensea.io/api/v1/asset/'' @ contr @ ''/'' @ tokenId @ ''/offers''
               else ''https://testnets-api.opensea.io/api/v1/asset/'' @ contr @ ''/'' @ tokenId @ ''/offers''))] w"
      from process_page_handler_throws [OF e3, of io ?w1]
      obtain w' where "process_page (fetchCollectionOffers_handleOrder (sdk env) (chainId env)) io response
                         ?w1 = (Some e3, w')"
        and "orders_v23 w' = orders_v23 w"
        and "filter is_insert (trace w') = filter is_insert (trace w)"
        by (auto simp: emit_def is_insert_def)
      with rep show ?thesis by (simp add: fetchCollectionOffers_def Let_def)
    qed
    show "(loop_cond details st
               \<and> buildFetchOrdersURL (chainId env) (fetchOrders_params sd details st) = Inr u
             \<longrightarrow> (\<exists>e st' w'. fetchOrders_loop env sd details (io # rest) st w = (Threw e, st', w')
                    \<and> orders_v23 w' = orders_v23 w
                    \<and> filter is_insert (trace w') = filter is_insert (trace w)))
          \<and> (\<exists>e w'. fetchAllOrders env fromTimestamp toTimestamp cur io w = (Inl e, w')
                \<and> orders_v23 w' = orders_v23 w
                \<and> filter is_insert (trace w') = filter is_insert (trace w))
          \<and> (\<exists>e w'. fetchCollectionOffers env contr tokenId io w = (Some e, w')
                \<and> orders_v23 w' = orders_v23 w
                \<and> filter is_insert (trace w') = filter is_insert (trace w))"
      using L F G by (intro conjI)
  qed
  show ?thesis using A B C D by (intro conjI)
qed

theorem unguarded_first_offer_witness:
  "fst (fetchOrders_handleOrder (sdk test_env) (chainId test_env) (mk_order ''0xCC'' ''0x99'' []) empty_acc)
     = Some (TypeError ''Cannot read properties of undefined (reading token)'')
   \<and> (\<exists>e st' w'. fetchOrders_loop test_env Sell no_details
          [page_of (Some ''c1'') [mk_order ''0xAA'' ''0x14'' [mk_item ''0xT1''], mk_order ''0xCC'' ''0x99'' []]]
          initial_state empty_world = (Threw e, st', w')
        \<and> orders_v23 w' = [] \<and> filter is_insert (trace w') = [])
   \<and> (\<exists>e w'. fetchAllOrders test_env None None None
          (page_of (Some ''c1'') [mk_order ''0xAA'' ''0x14'' [mk_item ''0xT1''], mk_order ''0xCC'' ''0x99'' []])
          empty_world = (Inl e, w')
        \<and> orders_v23 w' = [] \<and> filter is_insert (trace w') = [])
   \<and> (\<exists>e w'. fetchCollectionOffers test_env ''0xT1'' ''1''
          (page_of (Some ''c1'') [mk_order ''0xAA'' ''0x14'' [mk_item ''0xT1''], mk_order ''0xCC'' ''0x99'' []])
          empty_world = (Some e, w')
        \<and> orders_v23 w' = [] \<and> filter is_insert (trace w') = [])"
proof -
  let ?a = "mk_order ''0xAA'' ''0x14'' [mk_item ''0xT1'']"
  let ?bad = "mk_order ''0xCC'' ''0x99'' []"
  let ?resp = "\<lparr> data_next = Some ''c1'', data_orders = [?a, ?bad] \<rparr>"
  have p1: "fst (parseSeaportOrder (sdk test_env) (chainId test_env) ?bad) = Inr None"
    by (simp add: parseSeaportOrder_def parse_try_def test_env_def test_sdk_def mk_order_def)
  have p2: "\<not> truthy (parsed_contract (sdk test_env) None)"
    by (simp add: truthy_def parsed_contract_def)
  have h: "offer (parameters (protocol_data ?bad)) = []
            \<and> reply (page_of (Some ''c1'') [?a, ?bad]) = Inr ?resp
            \<and> ?bad \<in> set (data_orders ?resp)"
    by (simp add: mk_order_def page_of_def)
  have c0: "loop_cond no_details initial_state
            \<and> buildFetchOrdersURL (chainId test_env) (fetchOrders_params Sell no_details initial_state)
                = Inr (listings_url [])"
    by (simp add: loop_cond_def buildFetchOrdersURL_def chain_network_def test_env_def
        fetchOrders_params_def no_details_def initial_state_def listings_url_def show_nat_50)
  have e0: "trace empty_world = []" "orders_v23 empty_world = []"
    by (simp_all add: empty_world_def)
  show ?thesis
    using unguarded_first_offer [OF p1 p2, where acc=empty_acc and io="page_of (Some ''c1'') [?a, ?bad]"
        and response="?resp" and details=no_details and st=initial_state and sd=Sell
        and u="listings_url []" and rest="[]" and w=empty_world and fromTimestamp=None
        and toTimestamp=None and cur=None and contr="''0xT1''" and tokenId="''1''"] h c0
    by (simp add: e0 del: fetchOrders_loop.simps)
qed

lemma sibling_handlers_lowercase_hash:
  "fetchOrders_handleOrder lib c r acc = (None, acc') \<Longrightarrow>
     \<exists>row. row_values acc' = row_values acc @ [row] \<and> hash row = toLowerCase (order_hash r)"
  "fetchListingsBySlug_handleOrder lib c r acc = (None, acc') \<Longrightarrow>
     \<exists>row. row_values acc' = row_values acc @ [row] \<and> hash row = toLowerCase (order_hash r)"
  "fetchCollectionOffers_handleOrder lib c r acc = (None, acc') \<Longrightarrow>
     \<exists>row. row_values acc' = row_values acc @ [row] \<and> hash row = toLowerCase (order_hash r)"
  using parseSeaportOrder_returns [of lib c r]
  by (auto simp: fetchOrders_handleOrder_def fetchListingsBySlug_handleOrder_def
      fetchCollectionOffers_handleOrder_def push_parsed_def Let_def
      split: sum.splits option.splits)

text \<open>
  C3. The handlers of \<open>fetchOrders\<close>, \<open>fetchListingsBySlug\<close> and \<open>fetchCollectionOffers\<close> store
  the lowercased order hash (lemma \<open>sibling_handlers_lowercase_hash\<close>); the handler of
  \<open>fetchAllOrders\<close> stores the hash as received. On a record whose hash is \<open>0xAB\<close>,
  \<open>fetchAllOrders\<close> persists \<open>0xAB\<close> where \<open>fetchOrders\<close> persists \<open>0xab\<close>.
\<close>

theorem fetchAllOrders_hash_not_lowercased:
  "map hash (orders_v23 (snd (fetchAllOrders test_env None None None
       (page_of None [mk_order ''0xAB'' ''0x14'' [mk_item ''0xT1'']]) empty_world))) = [''0xAB'']
   \<and> toLowerCase (order_hash (mk_order ''0xAB'' ''0x14'' [mk_item ''0xT1''])) = ''0xab''
   \<and> map hash (orders_v23 (snd (snd (fetchOrders test_env Sell no_details
       [page_of None [mk_order ''0xAB'' ''0x14'' [mk_item ''0xT1'']]] empty_world)))) = [''0xab'']"
  by (simp add: fetchAllOrders_def fetchOrders_def fetchOrders_iteration_def fetchOrders_try_def
      fetchOrders_persist_def process_page_def persist_values_def db_insert_def
      insert_on_conflict_do_nothing_def insert_row_def enqueue_parsed_def addToRelayOrdersQueue_def
      fetchAllOrders_handleOrder_def fetchOrders_handleOrder_def parseSeaportOrder_def parse_try_def
      push_parsed_def target_lowered_each_def target_lowered_after_def parsed_contract_def
      first_offer_token_def orderComponent_def buildFetchOrdersURL_def chain_network_def
      fetchOrders_params_def request_url_def loop_cond_def initial_state_def emit_def
      test_env_def test_sdk_def mk_order_def mk_item_def page_of_def empty_world_def empty_acc_def
      no_details_def lower_examples show_nat_50 Let_def)

subsection \<open>The realtime worker: lock release and cursor persistence\<close>

lemma store_page_token_release:
  "\<exists>es. rt_trace (snd (store_page_token io tok w)) = rt_trace w @ es \<and> filter is_release es = []"
  by (auto simp: store_page_token_def rt_emit_def Let_def is_release_def split: option.splits)

lemma realtime_try_release:
  "\<exists>es. rt_trace (snd (realtime_try io w)) = rt_trace w @ es \<and> filter is_release es = []"
proof (cases "get_fault io")
  case (Some e)
  then show ?thesis by (simp add: realtime_try_def rt_emit_def Let_def is_release_def)
next
  case None
  let ?tok = "case redis w cacheKey of None \<Rightarrow> [] | Some v \<Rightarrow> v"
  show ?thesis
  proof (cases "fetchOrdersByPageToken io Sell ?tok")
    case (Inl e)
    with None show ?thesis by (simp add: realtime_try_def rt_emit_def Let_def is_release_def)
  next
    case (Inr newPageToken)
    let ?w2 = "rt_emit [RtLogged (LInfo, REALTIME_QUEUE_NAME,
                                       ''Start Coinbase sync from pageTokenCache='' @ ?tok),
                             FetchByPageToken Sell ?tok] (rt_emit [RedisGet cacheKey] w)"
    let ?w3 = "if newPageToken = Some ?tok
                             then rt_emit [RtLogged (LInfo, REALTIME_QUEUE_NAME,
                                            ''Coinbase pageToken did not change pageToken='' @ ?tok)] ?w2
                             else ?w2"
    have "\<exists>es3. rt_trace ?w3 = rt_trace w @ es3 \<and> filter is_release es3 = []"
      by (auto simp: rt_emit_def is_release_def)
    then obtain es3 where w3: "rt_trace ?w3 = rt_trace w @ es3" "filter is_release es3 = []"
      by blast
    obtain es where es: "rt_trace (snd (store_page_token io newPageToken ?w3)) = rt_trace ?w3 @ es"
      "filter is_release es = []"
      using store_page_token_release [of io newPageToken ?w3] by blast
    have "realtime_try io w = store_page_token io newPageToken ?w3"
      using None Inr by (simp add: realtime_try_def rt_emit_def Let_def)
    then have "rt_trace (snd (realtime_try io w)) = rt_trace w @ (es3 @ es)
               \<and> filter is_release (es3 @ es) = []"
      using es w3 by simp
    then show ?thesis by blast
  qed
qed

lemma realtime_processor_resolves:
  "fst (realtime_processor io job w) = None"
  by (simp add: realtime_processor_def split: prod.splits option.splits)

lemma realtime_processor_release:
  "\<exists>es. rt_trace (snd (realtime_processor io job w)) = rt_trace w @ es \<and> filter is_release es = []"
proof -
  obtain r w1 where t: "realtime_try io w = (r, w1)" by (cases "realtime_try io w")
  obtain es where es: "rt_trace w1 = rt_trace w @ es" "filter is_release es = []"
    using realtime_try_release [of io w] t by auto
  show ?thesis
  proof (cases r)
    case None
    with t es show ?thesis by (simp add: realtime_processor_def)
  next
    case (Some e)
    with t es show ?thesis
      by (simp add: realtime_processor_def rt_emit_def is_release_def)
  qed
qed

text \<open>
  C7. Whatever the cache and the fetch do during a job (in particular when the fetch
  throws), the processor's promise resolves, so the job is completed, and the
  \<open>completed\<close> listener releases the lock \<open>coinbase-sync-lock\<close> once, after everything the
  processor did: the run adds exactly one release to the trace.
\<close>

theorem lock_released_once:
  "fst (realtime_processor io job w) = None
   \<and> fst (run_job io job w) = Completed
   \<and> (\<exists>es ls. rt_trace (snd (realtime_processor io job w)) = rt_trace w @ es
              \<and> rt_trace (snd (run_job io job w))
                  = rt_trace w @ es @ ReleaseLock ''coinbase-sync-lock'' False # ls
              \<and> filter is_release es = [] \<and> filter is_release ls = [])
   \<and> length (filter is_release (rt_trace (snd (run_job io job w))))
       = length (filter is_release (rt_trace w)) + 1"
proof -
  obtain w1 where p: "realtime_processor io job w = (None, w1)"
    using realtime_processor_resolves [of io job w] by (cases "realtime_processor io job w") simp
  obtain es where es: "rt_trace w1 = rt_trace w @ es" "filter is_release es = []"
    using realtime_processor_release [of io job w] p by auto
  have rj: "run_job io job w = (Completed, on_completed job w1)"
    using p by (simp add: run_job_def)
  have "\<exists>ls. rt_trace (on_completed job w1) = rt_trace w1 @ ReleaseLock ''coinbase-sync-lock'' False # ls
          \<and> filter is_release ls = []"
    by (auto simp: on_completed_def rt_emit_def Let_def is_release_def)
  then obtain ls where ls: "rt_trace (on_completed job w1) = rt_trace w1 @ ReleaseLock ''coinbase-sync-lock'' False # ls"
    "filter is_release ls = []"
    by blast
  have cnt: "length (filter is_release (rt_trace (snd (run_job io job w))))
       = length (filter is_release (rt_trace w)) + 1"
    using rj ls es by (simp add: is_release_def)
  have pos: "\<exists>es ls. rt_trace (snd (realtime_processor io job w)) = rt_trace w @ es
              \<and> rt_trace (snd (run_job io job w))
                  = rt_trace w @ es @ ReleaseLock ''coinbase-sync-lock'' False # ls
              \<and> filter is_release es = [] \<and> filter is_release ls = []"
    using p rj ls es by auto
  show ?thesis using p rj cnt pos by simp
qed

theorem lock_released_once_witness:
  "fetchOrdersByPageToken failing_run Sell (start_token empty_rt) = Inl server_error
   \<and> fst (run_job failing_run first_job empty_rt) = Completed
   \<and> length (filter is_release (rt_trace (snd (run_job failing_run first_job empty_rt)))) = 1"
  using lock_released_once [of failing_run first_job empty_rt]
  by (simp add: failing_run_def empty_rt_def)

lemma rt_emit_redis: "redis (rt_emit es w) = redis w"
  by (simp add: rt_emit_def)

lemma on_completed_redis: "redis (on_completed job w) = redis w"
  by (simp add: on_completed_def rt_emit_def Let_def)

lemma run_job_redis:
  "redis (snd (run_job io job w)) = redis (snd (realtime_try io w))"
  by (simp add: run_job_def realtime_processor_def on_completed_redis rt_emit_redis
      split: prod.splits option.splits)

lemma realtime_try_redis:
  "redis (snd (realtime_try io w))
     = (if get_fault io = None \<and> set_fault io = None then
          (case fetchOrdersByPageToken io Sell (start_token w) of
             Inr (Some t) \<Rightarrow> if t \<noteq> [] then (redis w)(cacheKey \<mapsto> t) else redis w
           | Inr None \<Rightarrow> redis w
           | Inl e \<Rightarrow> redis w)
        else redis w)"
  by (auto simp: realtime_try_def store_page_token_def start_token_def rt_emit_def Let_def
      split: option.splits sum.splits)

lemma is_fetch_simps:
  "is_fetch_call (FetchByPageToken sd tok)" "\<not> is_fetch_call (RedisGet k)"
  "\<not> is_fetch_call (RedisSet k v)" "\<not> is_fetch_call (ReleaseLock n f)" "\<not> is_fetch_call (RtLogged l)"
  by (simp_all add: is_fetch_call_def)

lemma store_page_token_fetch:
  "\<exists>es. rt_trace (snd (store_page_token io tok w)) = rt_trace w @ es \<and> filter is_fetch_call es = []"
  by (auto simp: store_page_token_def rt_emit_def Let_def is_fetch_simps split: option.splits)

lemma realtime_try_fetch:
  assumes "get_fault io = None"
  shows "\<exists>es. rt_trace (snd (realtime_try io w)) = rt_trace w @ es
            \<and> filter is_fetch_call es = [FetchByPageToken Sell (start_token w)]"
proof (cases "fetchOrdersByPageToken io Sell (start_token w)")
  case (Inl e)
  with assms show ?thesis
    by (simp add: realtime_try_def start_token_def rt_emit_def Let_def is_fetch_simps)
next
  case (Inr newPageToken)
  let ?tok = "start_token w"
  let ?w2 = "rt_emit [RtLogged (LInfo, REALTIME_QUEUE_NAME,
                                       ''Start Coinbase sync from pageTokenCache='' @ ?tok),
                             FetchByPageToken Sell ?tok] (rt_emit [RedisGet cacheKey] w)"
  let ?w3 = "if newPageToken = Some ?tok
                             then rt_emit [RtLogged (LInfo, REALTIME_QUEUE_NAME,
                                            ''Coinbase pageToken did not change pageToken='' @ ?tok)] ?w2
                             else ?w2"
  have "\<exists>es3. rt_trace ?w3 = rt_trace w @ es3 \<and> filter is_fetch_call es3 = [FetchByPageToken Sell ?tok]"
    by (auto simp: rt_emit_def is_fetch_simps)
  then obtain es3 where w3: "rt_trace ?w3 = rt_trace w @ es3"
    "filter is_fetch_call es3 = [FetchByPageToken Sell ?tok]"
    by blast
  obtain es where es: "rt_trace (snd (store_page_token io newPageToken ?w3)) = rt_trace ?w3 @ es"
    "filter is_fetch_call es = []"
    using store_page_token_fetch [of io newPageToken ?w3] by blast
  have "realtime_try io w = store_page_token io newPageToken ?w3"
    using assms Inr by (simp add: realtime_try_def start_token_def rt_emit_def Let_def)
  then have "rt_trace (snd (realtime_try io w)) = rt_trace w @ (es3 @ es)
               \<and> filter is_fetch_call (es3 @ es) = [FetchByPageToken Sell ?tok]"
    using es w3 by simp
  then show ?thesis by blast
qed

lemma run_job_fetch:
  assumes "get_fault io = None"
  shows "\<exists>es. rt_trace (snd (run_job io job w)) = rt_trace w @ es
            \<and> filter is_fetch_call es = [FetchByPageToken Sell (start_token w)]"
proof -
  obtain r w1 where t: "realtime_try io w = (r, w1)" by (cases "realtime_try io w")
  obtain es where es: "rt_trace w1 = rt_trace w @ es"
    "filter is_fetch_call es = [FetchByPageToken Sell (start_token w)]"
    using realtime_try_fetch [OF assms, of w] t by auto
  have "\<exists>ls. rt_trace (snd (run_job io job w)) = rt_trace w1 @ ls \<and> filter is_fetch_call ls = []"
    using t
    by (auto simp: run_job_def realtime_processor_def on_completed_def rt_emit_def Let_def
        is_fetch_simps split: option.splits)
  then obtain ls where ls: "rt_trace (snd (run_job io job w)) = rt_trace w1 @ ls"
    "filter is_fetch_call ls = []" by blast
  have "rt_trace (snd (run_job io job w)) = rt_trace w @ (es @ ls)
        \<and> filter is_fetch_call (es @ ls) = [FetchByPageToken Sell (start_token w)]"
    using es ls by simp
  then show ?thesis by blast
qed

text \<open>
  C8. A job whose cache read succeeds, whose fetch returns a non-empty page token \<open>t\<close> and
  whose cache write succeeds leaves \<open>t\<close> under the cache key, overwriting what was there,
  and the next job (if its cache read succeeds) calls the fetch with exactly \<open>t\<close>. A job
  whose fetch returns no token or the empty token, or in which the cache read, the fetch
  or the cache write throws, leaves the cache as it was.
\<close>

theorem cursor_round_trip:
  "(get_fault io = None \<and> fetchOrdersByPageToken io Sell (start_token w) = Inr (Some t)
      \<and> t \<noteq> [] \<and> set_fault io = None
    \<longrightarrow> redis (snd (run_job io job w)) = (redis w)(cacheKey \<mapsto> t)
        \<and> start_token (snd (run_job io job w)) = t
        \<and> (get_fault io2 = None \<longrightarrow>
             (\<exists>es. rt_trace (snd (run_job io2 job2 (snd (run_job io job w))))
                      = rt_trace (snd (run_job io job w)) @ es
                  \<and> filter is_fetch_call es = [FetchByPageToken Sell t])))
   \<and> (get_fault io \<noteq> None \<or> fetchOrdersByPageToken io Sell (start_token w) = Inr None
        \<or> fetchOrdersByPageToken io Sell (start_token w) = Inr (Some [])
        \<or> (\<exists>e. fetchOrdersByPageToken io Sell (start_token w) = Inl e)
        \<or> set_fault io \<noteq> None
    \<longrightarrow> redis (snd (run_job io job w)) = redis w)"
proof (rule conjI; rule impI)
  assume h: "get_fault io = None \<and> fetchOrdersByPageToken io Sell (start_token w) = Inr (Some t)
      \<and> t \<noteq> [] \<and> set_fault io = None"
  let ?w1 = "snd (run_job io job w)"
  have r: "redis ?w1 = (redis w)(cacheKey \<mapsto> t)"
    using h by (simp add: run_job_redis realtime_try_redis)
  then have s: "start_token ?w1 = t"
    by (simp add: start_token_def)
  have n: "get_fault io2 = None \<longrightarrow>
             (\<exists>es. rt_trace (snd (run_job io2 job2 ?w1)) = rt_trace ?w1 @ es
                  \<and> filter is_fetch_call es = [FetchByPageToken Sell t])"
    using run_job_fetch [of io2 job2 ?w1] s by simp
  show "redis ?w1 = (redis w)(cacheKey \<mapsto> t) \<and> start_token ?w1 = t
        \<and> (get_fault io2 = None \<longrightarrow>
             (\<exists>es. rt_trace (snd (run_job io2 job2 ?w1)) = rt_trace ?w1 @ es
                  \<and> filter is_fetch_call es = [FetchByPageToken Sell t]))"
    using r s n by (intro conjI)
next
  assume "get_fault io \<noteq> None \<or> fetchOrdersByPageToken io Sell (start_token w) = Inr None
        \<or> fetchOrdersByPageToken io Sell (start_token w) = Inr (Some [])
        \<or> (\<exists>e. fetchOrdersByPageToken io Sell (start_token w) = Inl e)
        \<or> set_fault io \<noteq> None"
  then show "redis (snd (run_job io job w)) = redis w"
    by (auto simp: run_job_redis realtime_try_redis)
qed

theorem cursor_round_trip_witness:
  "redis (snd (run_job (moving_run ''abc123'') first_job empty_rt)) cacheKey = Some ''abc123''
   \<and> (\<exists>es. rt_trace (snd (run_job failing_run first_job
                 (snd (run_job (moving_run ''abc123'') first_job empty_rt))))
              = rt_trace (snd (run_job (moving_run ''abc123'') first_job empty_rt)) @ es
          \<and> filter is_fetch_call es = [FetchByPageToken Sell ''abc123''])
   \<and> redis (snd (run_job failing_run first_job
                (snd (run_job (moving_run ''abc123'') first_job empty_rt)))) cacheKey = Some ''abc123''"
proof -
  let ?w1 = "snd (run_job (moving_run ''abc123'') first_job empty_rt)"
  have h1: "get_fault (moving_run ''abc123'') = None
      \<and> fetchOrdersByPageToken (moving_run ''abc123'') Sell (start_token empty_rt) = Inr (Some ''abc123'')
      \<and> ''abc123'' \<noteq> [] \<and> set_fault (moving_run ''abc123'') = None"
    by (simp add: moving_run_def)
  have h2: "get_fault failing_run = None"
    by (simp add: failing_run_def)
  have h3: "\<exists>e. fetchOrdersByPageToken failing_run Sell (start_token ?w1) = Inl e"
    by (simp add: failing_run_def)
  have a: "redis ?w1 = (redis empty_rt)(cacheKey \<mapsto> ''abc123'')"
    and b: "\<exists>es. rt_trace (snd (run_job failing_run first_job ?w1)) = rt_trace ?w1 @ es
          \<and> filter is_fetch_call es = [FetchByPageToken Sell ''abc123'']"
    using cursor_round_trip [of "moving_run ''abc123''" empty_rt "''abc123''" first_job failing_run first_job]
      h1 h2 by blast+
  have c: "redis (snd (run_job failing_run first_job ?w1)) = redis ?w1"
    using cursor_round_trip [of failing_run ?w1 "''abc123''" first_job failing_run first_job] h3
    by blast
  show ?thesis using a b c by simp
qed

subsection \<open>The collection refresh\<close>

lemma max_pages_50: "max_pages = 50"
  by (simp add: max_pages_def MAX_FETCH_OFFERS_COLLECTIONS_def)

lemma ranking_loop_exhausted:
  "max_pages \<le> i \<Longrightarrow> ranking_loop io i cont cs tr = (None, cs, tr)"
  by (simp add: ranking_loop.simps [of io i])

lemma ranking_loop_throws:
  "i < max_pages \<Longrightarrow> ranking_reply io i cont = Inl e \<Longrightarrow>
   ranking_loop io i cont cs tr = (Some e, cs, tr @ [RankingRequest (ranking_query cont)])"
  by (simp add: ranking_loop.simps [of io i] Let_def)

lemma ranking_loop_short_page:
  "i < max_pages \<Longrightarrow> ranking_reply io i cont = Inr page \<Longrightarrow> length (page_collections page) < 20 \<Longrightarrow>
   ranking_loop io i cont cs tr
     = (None, cs @ page_collections page, tr @ [RankingRequest (ranking_query cont)])"
  by (simp add: ranking_loop.simps [of io i] Let_def)

lemma ranking_loop_full_page:
  "i < max_pages \<Longrightarrow> ranking_reply io i cont = Inr page \<Longrightarrow> 20 \<le> length (page_collections page) \<Longrightarrow>
   ranking_loop io i cont cs tr
     = ranking_loop io (Suc i) (page_continuation page) (cs @ page_collections page)
         (tr @ [RankingRequest (ranking_query cont)])"
  by (simp add: ranking_loop.simps [of io i] Let_def)

lemma ranking_loop_trace:
  "\<exists>conts. snd (snd (ranking_loop io i cont cs tr))
             = tr @ map (\<lambda>c. RankingRequest (ranking_query c)) conts
          \<and> length conts \<le> max_pages - i
          \<and> (i < max_pages \<longrightarrow> conts \<noteq> [] \<and> hd conts = cont)"
proof (induction io i cont cs tr rule: ranking_loop.induct)
  case (1 io i continuation collections tr)
  show ?case
  proof (cases "i < max_pages")
    case False
    then have "ranking_loop io i continuation collections tr = (None, collections, tr)"
      by (simp add: ranking_loop_exhausted)
    then have "snd (snd (ranking_loop io i continuation collections tr))
                 = tr @ map (\<lambda>c. RankingRequest (ranking_query c)) []
               \<and> length ([]::string option list) \<le> max_pages - i
               \<and> (i < max_pages \<longrightarrow> ([]::string option list) \<noteq> [] \<and> hd [] = continuation)"
      using False by simp
    then show ?thesis by blast
  next
    case True
    let ?tr1 = "tr @ [RankingRequest (ranking_query continuation)]"
    have one: "?tr1 = tr @ map (\<lambda>c. RankingRequest (ranking_query c)) [continuation]
               \<and> length [continuation] \<le> max_pages - i
               \<and> (i < max_pages \<longrightarrow> [continuation] \<noteq> [] \<and> hd [continuation] = continuation)"
      using True by simp
    show ?thesis
    proof (cases "ranking_reply io i continuation")
      case (Inl e)
      then have "snd (snd (ranking_loop io i continuation collections tr)) = ?tr1"
        using True by (simp add: ranking_loop_throws)
      with one show ?thesis by metis
    next
      case (Inr page)
      show ?thesis
      proof (cases "length (page_collections page) < 20")
        case short: True
        then have "snd (snd (ranking_loop io i continuation collections tr)) = ?tr1"
          using True Inr by (simp add: ranking_loop_short_page)
        with one show ?thesis by metis
      next
        case full: False
        obtain conts where ih:
          "snd (snd (ranking_loop io (Suc i) (page_continuation page)
                        (collections @ page_collections page) ?tr1))
             = ?tr1 @ map (\<lambda>c. RankingRequest (ranking_query c)) conts"
          "length conts \<le> max_pages - Suc i"
          using "1.IH" [OF True refl Inr full] by blast
        have eq: "ranking_loop io i continuation collections tr
                = ranking_loop io (Suc i) (page_continuation page)
                    (collections @ page_collections page) ?tr1"
          using True Inr full by (simp add: ranking_loop_full_page)
        have "snd (snd (ranking_loop io i continuation collections tr))
                 = tr @ map (\<lambda>c. RankingRequest (ranking_query c)) (continuation # conts)
               \<and> length (continuation # conts) \<le> max_pages - i
               \<and> (i < max_pages \<longrightarrow> continuation # conts \<noteq> [] \<and> hd (continuation # conts) = continuation)"
          using eq ih True by simp
        then show ?thesis by blast
      qed
    qed
  qed
qed

lemma ranking_loop_collections:
  assumes "\<forall>j c page. ranking_reply io j c = Inr page \<longrightarrow> length (page_collections page) \<le> 20"
  shows "length (fst (snd (ranking_loop io i cont cs tr))) \<le> length cs + 20 * (max_pages - i)"
  using assms
proof (induction io i cont cs tr rule: ranking_loop.induct)
  case (1 io i continuation collections tr)
  note bound = "1.prems"
  show ?case
  proof (cases "i < max_pages")
    case False
    then show ?thesis by (simp add: ranking_loop_exhausted)
  next
    case True
    let ?tr1 = "tr @ [RankingRequest (ranking_query continuation)]"
    show ?thesis
    proof (cases "ranking_reply io i continuation")
      case (Inl e)
      with True show ?thesis by (simp add: ranking_loop_throws)
    next
      case (Inr page)
      have pl: "length (page_collections page) \<le> 20" using bound Inr by blast
      show ?thesis
      proof (cases "length (page_collections page) < 20")
        case short: True
        with True Inr pl show ?thesis by (simp add: ranking_loop_short_page)
      next
        case full: False
        have ih: "length (fst (snd (ranking_loop io (Suc i)
                     (page_continuation page) (collections @ page_collections page) ?tr1)))
                  \<le> length (collections @ page_collections page) + 20 * (max_pages - Suc i)"
          using "1.IH" [OF True refl Inr full bound] .
        have "ranking_loop io i continuation collections tr
                = ranking_loop io (Suc i) (page_continuation page)
                    (collections @ page_collections page) ?tr1"
          using True Inr full by (simp add: ranking_loop_full_page)
        with ih pl True show ?thesis by simp
      qed
    qed
  qed
qed

lemma ranking_loop_constant_pages:
  assumes "\<forall>j c. ranking_reply io j c = Inr page" and "20 \<le> length (page_collections page)"
  shows "length (fst (snd (ranking_loop io i cont cs tr)))
           = length cs + length (page_collections page) * (max_pages - i)"
  using assms
proof (induction io i cont cs tr rule: ranking_loop.induct)
  case (1 io i continuation collections tr)
  show ?case
  proof (cases "i < max_pages")
    case False
    then show ?thesis by (simp add: ranking_loop_exhausted)
  next
    case True
    let ?tr1 = "tr @ [RankingRequest (ranking_query continuation)]"
    have r: "ranking_reply io i continuation = Inr page" using "1.prems"(1) by blast
    have full: "\<not> length (page_collections page) < 20" using "1.prems"(2) by simp
    have ih: "length (fst (snd (ranking_loop io (Suc i)
                     (page_continuation page) (collections @ page_collections page) ?tr1)))
                  = length (collections @ page_collections page)
                    + length (page_collections page) * (max_pages - Suc i)"
      using "1.IH" [OF True refl r full "1.prems"] .
    have eq: "ranking_loop io i continuation collections tr
                = ranking_loop io (Suc i) (page_continuation page)
                    (collections @ page_collections page) ?tr1"
      using True r "1.prems"(2) by (simp add: ranking_loop_full_page)
    have "max_pages - i = Suc (max_pages - Suc i)" using True by simp
    with eq ih show ?thesis by simp
  qed
qed

lemma sample_loop_no_ranking_requests:
  "filter is_ranking_request (snd (sample_loop io i cs toAdd tr)) = filter is_ranking_request tr"
  by (induction cs arbitrary: i toAdd tr)
     (auto simp: Let_def is_ranking_request_def split: sum.splits)

lemma sample_loop_tokens_requests:
  "filter is_tokens_request (snd (sample_loop io i cs toAdd tr))
     = filter is_tokens_request tr @ map (\<lambda>c. TokensRequest (tokens_query (collection_id c))) cs"
  by (induction cs arbitrary: i toAdd tr)
     (auto simp: Let_def is_tokens_request_def split: sum.splits)

lemma sample_loop_keeps:
  "x \<in> set toAdd \<Longrightarrow> x \<in> set (fst (sample_loop io i cs toAdd tr))"
  by (induction cs arbitrary: i toAdd tr) (auto simp: Let_def split: sum.splits)

lemma sample_loop_trace_keeps:
  "x \<in> set tr \<Longrightarrow> x \<in> set (snd (sample_loop io i cs toAdd tr))"
  by (induction cs arbitrary: i toAdd tr) (auto simp: Let_def split: sum.splits)

lemma sample_loop_success:
  "j < length cs \<Longrightarrow> tokens_reply io (i + j) (collection_id (cs ! j)) = Inr (tokens, rnd) \<Longrightarrow>
   probe (cs ! j) tokens rnd \<in> set (fst (sample_loop io i cs toAdd tr))"
proof (induction cs arbitrary: i j toAdd tr)
  case Nil
  then show ?case by simp
next
  case (Cons c cs)
  show ?case
  proof (cases j)
    case 0
    with Cons.prems(2) have "tokens_reply io i (collection_id c) = Inr (tokens, rnd)" by simp
    then have "sample_loop io i (c # cs) toAdd tr
                 = sample_loop io (Suc i) cs (toAdd @ [probe c tokens rnd])
                     (tr @ [TokensRequest (tokens_query (collection_id c))])"
      by (simp add: Let_def probe_def)
    with 0 show ?thesis
      using sample_loop_keeps [of "probe c tokens rnd" "toAdd @ [probe c tokens rnd]" io "Suc i" cs]
      by simp
  next
    case (Suc k)
    with Cons.prems have k: "k < length cs"
      and r: "tokens_reply io (Suc i + k) (collection_id (cs ! k)) = Inr (tokens, rnd)"
      by simp_all
    have "\<And>toAdd' tr'. probe (cs ! k) tokens rnd \<in> set (fst (sample_loop io (Suc i) cs toAdd' tr'))"
      using Cons.IH [OF k r] .
    with Suc show ?thesis
      by (auto simp: Let_def split: sum.splits)
  qed
qed

lemma sample_loop_failure_logged:
  "j < length cs \<Longrightarrow> tokens_reply io (i + j) (collection_id (cs ! j)) = Inl e \<Longrightarrow>
   RfLogged (LError, ''refresh_collections'',
             ''Failed to refresh collection. collectionId='' @ collection_id (cs ! j) @
             '', error:'' @ show_error e)
     \<in> set (snd (sample_loop io i cs toAdd tr))"
proof (induction cs arbitrary: i j toAdd tr)
  case Nil
  then show ?case by simp
next
  case (Cons c cs)
  let ?line = "\<lambda>c. RfLogged (LError, ''refresh_collections'',
             ''Failed to refresh collection. collectionId='' @ collection_id c @
             '', error:'' @ show_error e)"
  show ?case
  proof (cases j)
    case 0
    with Cons.prems(2) have "tokens_reply io i (collection_id c) = Inl e" by simp
    then have "sample_loop io i (c # cs) toAdd tr
                 = sample_loop io (Suc i) cs toAdd
                     (tr @ [TokensRequest (tokens_query (collection_id c))] @ [?line c])"
      by (simp add: Let_def)
    with 0 show ?thesis
      using sample_loop_trace_keeps [of "?line c"
          "tr @ [TokensRequest (tokens_query (collection_id c))] @ [?line c]" io "Suc i" cs toAdd]
      by simp
  next
    case (Suc k)
    with Cons.prems have k: "k < length cs"
      and r: "tokens_reply io (Suc i + k) (collection_id (cs ! k)) = Inl e"
      by simp_all
    have "\<And>toAdd' tr'. ?line (cs ! k) \<in> set (snd (sample_loop io (Suc i) cs toAdd' tr'))"
      using Cons.IH [OF k r] .
    with Suc show ?thesis
      by (auto simp: Let_def split: sum.splits)
  qed
qed

lemma sample_loop_length:
  "length (fst (sample_loop io i cs toAdd tr))
     = length toAdd
       + length (filter (\<lambda>(j, c). \<not> isl (tokens_reply io j (collection_id c))) (enumerate i cs))"
  by (induction cs arbitrary: i toAdd tr) (auto simp: Let_def split: sum.splits)

lemma refresh_shape:
  assumes "ranking_loop io 0 None [] [] = (None, cols, tr0)" and "cols \<noteq> []"
  shows "\<exists>ls. refreshCollectionsToFetchOffers io
           = snd (sample_loop io 0 cols [] tr0) @ Add (fst (sample_loop io 0 cols [] tr0)) True # ls
         \<and> filter is_ranking_request ls = [] \<and> filter is_tokens_request ls = []"
  using assms
  by (auto simp: refreshCollectionsToFetchOffers_def is_ranking_request_def is_tokens_request_def
      split: prod.splits option.splits)

lemma filter_ranking_map:
  "filter is_ranking_request (map (\<lambda>c. RankingRequest (ranking_query c)) conts)
     = map (\<lambda>c. RankingRequest (ranking_query c)) conts"
  "filter is_tokens_request (map (\<lambda>c. RankingRequest (ranking_query c)) conts) = []"
  by (induction conts) (simp_all add: is_ranking_request_def is_tokens_request_def)

lemma refresh_ranking_requests:
  "\<exists>conts. filter is_ranking_request (refreshCollectionsToFetchOffers io)
             = map (\<lambda>c. RankingRequest (ranking_query c)) conts
          \<and> length conts \<le> 50"
proof -
  obtain r cols tr0 where rl: "ranking_loop io 0 None [] [] = (r, cols, tr0)"
    by (cases "ranking_loop io 0 None [] []")
  obtain conts where tr0: "tr0 = map (\<lambda>c. RankingRequest (ranking_query c)) conts"
    and len: "length conts \<le> 50"
    using ranking_loop_trace [of io 0 None "[]" "[]"] rl by (auto simp: max_pages_50)
  have "filter is_ranking_request (refreshCollectionsToFetchOffers io)
          = map (\<lambda>c. RankingRequest (ranking_query c)) conts"
  proof (cases r)
    case (Some e)
    with rl tr0 show ?thesis
      by (simp add: refreshCollectionsToFetchOffers_def filter_ranking_map is_ranking_request_def)
  next
    case None
    show ?thesis
    proof (cases "cols = []")
      case True
      with rl None tr0 show ?thesis
        by (simp add: refreshCollectionsToFetchOffers_def filter_ranking_map)
    next
      case False
      obtain ls where "refreshCollectionsToFetchOffers io
           = snd (sample_loop io 0 cols [] tr0) @ Add (fst (sample_loop io 0 cols [] tr0)) True # ls"
        and "filter is_ranking_request ls = []"
        using refresh_shape [OF _ False, of io tr0] rl None by blast
      then show ?thesis
        using tr0 by (simp add: sample_loop_no_ranking_requests filter_ranking_map is_ranking_request_def)
    qed
  qed
  with len show ?thesis by blast
qed

lemma ranking_loop_next_request:
  assumes "i < max_pages" and "ranking_reply io i cont = Inr page"
    and "20 \<le> length (page_collections page)" and "Suc i < max_pages"
  shows "\<exists>es. snd (snd (ranking_loop io i cont cs tr))
            = tr @ RankingRequest (ranking_query cont)
                 # RankingRequest (ranking_query (page_continuation page)) # es"
proof -
  let ?tr1 = "tr @ [RankingRequest (ranking_query cont)]"
  obtain conts where c: "snd (snd (ranking_loop io (Suc i) (page_continuation page)
                                     (cs @ page_collections page) ?tr1))
             = ?tr1 @ map (\<lambda>c. RankingRequest (ranking_query c)) conts"
    and ne: "conts \<noteq> []" and h: "hd conts = page_continuation page"
    using ranking_loop_trace [of io "Suc i" "page_continuation page" "cs @ page_collections page" ?tr1]
      assms(4) by blast
  obtain rest where "conts = page_continuation page # rest"
    using ne h by (cases conts) auto
  with c ranking_loop_full_page [OF assms(1,2,3), of cs tr] show ?thesis by simp
qed

text \<open>
  C9, as amended. A refresh sends at most 50 requests to the ranking source, each asking
  for 20 collections (\<open>limit=20\<close>). After a page of 20 or more collections the loop goes
  on to the next request, made with the continuation of that page; a page of fewer than
  20 collections ends the loop, as does the 50th request. When the source never returns
  more than the 20 collections asked for, at most 1000 collections are gathered. When the
  ranking loop ends normally with some collections, a token request is made for every
  one of them in turn; a failing token request is logged with the collection's id and
  the error, the loop goes on, and the list handed to \<open>add\<close> holds the probe of every
  collection whose token request succeeded, and one entry per such collection.
\<close>

theorem refresh_is_bounded_and_resilient:
  "(\<exists>conts. filter is_ranking_request (refreshCollectionsToFetchOffers io)
              = map (\<lambda>c. RankingRequest (ranking_query c)) conts
           \<and> length conts \<le> 50)
   \<and> (''limit'', ''20'') \<in> set (ranking_query cont)
   \<and> ((\<forall>n c pg. ranking_reply io n c = Inr pg \<longrightarrow> length (page_collections pg) \<le> 20)
        \<longrightarrow> length (fst (snd (ranking_loop io 0 None [] []))) \<le> MAX_FETCH_OFFERS_COLLECTIONS)
   \<and> (i < max_pages \<and> ranking_reply io i cont = Inr page \<and> length (page_collections page) < 20
        \<longrightarrow> ranking_loop io i cont cs tr
              = (None, cs @ page_collections page, tr @ [RankingRequest (ranking_query cont)]))
   \<and> (i < max_pages \<and> ranking_reply io i cont = Inr page \<and> 20 \<le> length (page_collections page)
        \<longrightarrow> ranking_loop io i cont cs tr
              = ranking_loop io (Suc i) (page_continuation page) (cs @ page_collections page)
                  (tr @ [RankingRequest (ranking_query cont)])
            \<and> (Suc i < max_pages
                 \<longrightarrow> (\<exists>es. snd (snd (ranking_loop io i cont cs tr))
                            = tr @ RankingRequest (ranking_query cont)
                                 # RankingRequest (ranking_query (page_continuation page)) # es)))
   \<and> (max_pages \<le> i \<longrightarrow> ranking_loop io i cont cs tr = (None, cs, tr))
   \<and> (ranking_loop io 0 None [] [] = (None, cols, tr0) \<and> cols \<noteq> []
        \<longrightarrow> (\<exists>toAdd tr1 ls. refreshCollectionsToFetchOffers io = tr1 @ Add toAdd True # ls
               \<and> filter is_tokens_request tr1
                   = map (\<lambda>c. TokensRequest (tokens_query (collection_id c))) cols
               \<and> (\<forall>j tokens rnd. j < length cols
                      \<and> tokens_reply io j (collection_id (cols ! j)) = Inr (tokens, rnd)
                    \<longrightarrow> probe (cols ! j) tokens rnd \<in> set toAdd)
               \<and> (\<forall>j e. j < length cols \<and> tokens_reply io j (collection_id (cols ! j)) = Inl e
                    \<longrightarrow> RfLogged (LError, ''refresh_collections'',
                                  ''Failed to refresh collection. collectionId='' @
                                  collection_id (cols ! j) @ '', error:'' @ show_error e) \<in> set tr1)
               \<and> length toAdd
                   = length (filter (\<lambda>(j, c). \<not> isl (tokens_reply io j (collection_id c)))
                               (enumerate 0 cols))))"
proof -
  have A: "\<exists>conts. filter is_ranking_request (refreshCollectionsToFetchOffers io)
              = map (\<lambda>c. RankingRequest (ranking_query c)) conts
           \<and> length conts \<le> 50"
    by (rule refresh_ranking_requests)
  have A': "(''limit'', ''20'') \<in> set (ranking_query cont)"
    by (simp add: ranking_query_def split: option.splits)
  have B: "(\<forall>n c pg. ranking_reply io n c = Inr pg \<longrightarrow> length (page_collections pg) \<le> 20)
        \<longrightarrow> length (fst (snd (ranking_loop io 0 None [] []))) \<le> MAX_FETCH_OFFERS_COLLECTIONS"
  proof
    assume "\<forall>n c pg. ranking_reply io n c = Inr pg \<longrightarrow> length (page_collections pg) \<le> 20"
    from ranking_loop_collections [OF this, of 0 None "[]" "[]"]
    show "length (fst (snd (ranking_loop io 0 None [] []))) \<le> MAX_FETCH_OFFERS_COLLECTIONS"
      by (simp add: max_pages_50 MAX_FETCH_OFFERS_COLLECTIONS_def)
  qed
  have C: "i < max_pages \<and> ranking_reply io i cont = Inr page \<and> length (page_collections page) < 20
        \<longrightarrow> ranking_loop io i cont cs tr
              = (None, cs @ page_collections page, tr @ [RankingRequest (ranking_query cont)])"
    using ranking_loop_short_page [of i io cont page cs tr] by blast
  have C': "i < max_pages \<and> ranking_reply io i cont = Inr page \<and> 20 \<le> length (page_collections page)
        \<longrightarrow> ranking_loop io i cont cs tr
              = ranking_loop io (Suc i) (page_continuation page) (cs @ page_collections page)
                  (tr @ [RankingRequest (ranking_query cont)])
            \<and> (Suc i < max_pages
                 \<longrightarrow> (\<exists>es. snd (snd (ranking_loop io i cont cs tr))
                            = tr @ RankingRequest (ranking_query cont)
                                 # RankingRequest (ranking_query (page_continuation page)) # es))"
    using ranking_loop_full_page [of i io cont page cs tr]
      ranking_loop_next_request [of i io cont page cs tr] by blast
  have E: "max_pages \<le> i \<longrightarrow> ranking_loop io i cont cs tr = (None, cs, tr)"
    using ranking_loop_exhausted [of i io cont cs tr] by blast
  have D: "ranking_loop io 0 None [] [] = (None, cols, tr0) \<and> cols \<noteq> []
        \<longrightarrow> (\<exists>toAdd tr1 ls. refreshCollectionsToFetchOffers io = tr1 @ Add toAdd True # ls
               \<and> filter is_tokens_request tr1
                   = map (\<lambda>c. TokensRequest (tokens_query (collection_id c))) cols
               \<and> (\<forall>j tokens rnd. j < length cols
                      \<and> tokens_reply io j (collection_id (cols ! j)) = Inr (tokens, rnd)
                    \<longrightarrow> probe (cols ! j) tokens rnd \<in> set toAdd)
               \<and> (\<forall>j e. j < length cols \<and> tokens_reply io j (collection_id (cols ! j)) = Inl e
                    \<longrightarrow> RfLogged (LError, ''refresh_collections'',
                                  ''Failed to refresh collection. collectionId='' @
                                  collection_id (cols ! j) @ '', error:'' @ show_error e) \<in> set tr1)
               \<and> length toAdd
                   = length (filter (\<lambda>(j, c). \<not> isl (tokens_reply io j (collection_id c)))
                               (enumerate 0 cols)))"
  proof
    assume h: "ranking_loop io 0 None [] [] = (None, cols, tr0) \<and> cols \<noteq> []"
    let ?toAdd = "fst (sample_loop io 0 cols [] tr0)"
    let ?tr1 = "snd (sample_loop io 0 cols [] tr0)"
    obtain ls where sh: "refreshCollectionsToFetchOffers io = ?tr1 @ Add ?toAdd True # ls"
      using refresh_shape [of io cols tr0] h by blast
    obtain conts where "tr0 = map (\<lambda>c. RankingRequest (ranking_query c)) conts"
      using ranking_loop_trace [of io 0 None "[]" "[]"] h by auto
    then have "filter is_tokens_request tr0 = []"
      by (simp add: filter_ranking_map)
    then have tk: "filter is_tokens_request ?tr1
                     = map (\<lambda>c. TokensRequest (tokens_query (collection_id c))) cols"
      by (simp add: sample_loop_tokens_requests)
    have su: "\<forall>j tokens rnd. j < length cols
                      \<and> tokens_reply io j (collection_id (cols ! j)) = Inr (tokens, rnd)
                    \<longrightarrow> probe (cols ! j) tokens rnd \<in> set ?toAdd"
      using sample_loop_success [of _ cols io 0] by simp
    have fl: "\<forall>j e. j < length cols \<and> tokens_reply io j (collection_id (cols ! j)) = Inl e
                    \<longrightarrow> RfLogged (LError, ''refresh_collections'',
                                  ''Failed to refresh collection. collectionId='' @
                                  collection_id (cols ! j) @ '', error:'' @ show_error e) \<in> set ?tr1"
      using sample_loop_failure_logged [of _ cols io 0] by simp
    have ln: "length ?toAdd
                = length (filter (\<lambda>(j, c). \<not> isl (tokens_reply io j (collection_id c)))
                            (enumerate 0 cols))"
      using sample_loop_length [of io 0 cols "[]" tr0] by simp
    show "\<exists>toAdd tr1 ls. refreshCollectionsToFetchOffers io = tr1 @ Add toAdd True # ls
               \<and> filter is_tokens_request tr1
                   = map (\<lambda>c. TokensRequest (tokens_query (collection_id c))) cols
               \<and> (\<forall>j tokens rnd. j < length cols
                      \<and> tokens_reply io j (collection_id (cols ! j)) = Inr (tokens, rnd)
                    \<longrightarrow> probe (cols ! j) tokens rnd \<in> set toAdd)
               \<and> (\<forall>j e. j < length cols \<and> tokens_reply io j (collection_id (cols ! j)) = Inl e
                    \<longrightarrow> RfLogged (LError, ''refresh_collections'',
                                  ''Failed to refresh collection. collectionId='' @
                                  collection_id (cols ! j) @ '', error:'' @ show_error e) \<in> set tr1)
               \<and> length toAdd
                   = length (filter (\<lambda>(j, c). \<not> isl (tokens_reply io j (collection_id c)))
                               (enumerate 0 cols))"
      using sh tk su fl ln by blast
  qed
  show ?thesis using A A' B C C' E D by (intro conjI)
qed

text \<open>
  The loop bounds the number of requests, not the number of collections: every element
  of a page is pushed. Against a ranking source that answers each request with 21
  collections, 50 requests gather 1050 collections, more than
  \<open>MAX_FETCH_OFFERS_COLLECTIONS\<close>.
\<close>

theorem refresh_unbounded_source_counterexample:
  "\<not> length (fst (snd (ranking_loop greedy_source 0 None [] []))) \<le> MAX_FETCH_OFFERS_COLLECTIONS"
proof -
  let ?page = "\<lparr> page_collections = replicate 21 (col ''a''), page_continuation = Some ''k'' \<rparr>"
  have "length (fst (snd (ranking_loop greedy_source 0 None [] [])))
          = length ([]::Collection list) + length (page_collections ?page) * (max_pages - 0)"
    by (rule ranking_loop_constant_pages) (simp_all add: greedy_source_def)
  then have "length (fst (snd (ranking_loop greedy_source 0 None [] []))) = 1050"
    by (simp add: max_pages_50)
  then show ?thesis by (simp add: MAX_FETCH_OFFERS_COLLECTIONS_def)
qed

lemma paged_source_successes:
  "length (filter (\<lambda>(j, c). \<not> isl (tokens_reply paged_source j (collection_id c)))
             (enumerate 0 (replicate 20 (col ''a'') @ [col ''b'', col ''c'']))) = 21"
  by code_simp

theorem refresh_is_bounded_and_resilient_witness:
  "ranking_loop paged_source 0 None [] []
     = (None, replicate 20 (col ''a'') @ [col ''b'', col ''c''],
        [RankingRequest (ranking_query None), RankingRequest (ranking_query (Some ''k1''))])
   \<and> (''limit'', ''20'') \<in> set (ranking_query (Some ''k1''))
   \<and> length (fst (snd (ranking_loop paged_source 0 None [] []))) \<le> MAX_FETCH_OFFERS_COLLECTIONS
   \<and> ranking_loop paged_source 50 None [] [] = (None, [], [])
   \<and> tokens_reply paged_source 0 ''a'' = Inl server_error
   \<and> (\<exists>toAdd tr1 ls. refreshCollectionsToFetchOffers paged_source = tr1 @ Add toAdd True # ls
         \<and> length (filter is_tokens_request tr1) = 22
         \<and> probe (col ''c'') [''7'', ''8''] 3 \<in> set toAdd
         \<and> RfLogged (LError, ''refresh_collections'',
                      ''Failed to refresh collection. collectionId='' @ ''a'' @
                      '', error:'' @ show_error server_error) \<in> set tr1
         \<and> length toAdd = 21)"
proof -
  let ?p0 = "\<lparr> page_collections = replicate 20 (col ''a''), page_continuation = Some ''k1'' \<rparr>"
  let ?p1 = "\<lparr> page_collections = [col ''b'', col ''c''], page_continuation = None \<rparr>"
  let ?cols = "replicate 20 (col ''a'') @ [col ''b'', col ''c'']"
  let ?tr0 = "[RankingRequest (ranking_query None), RankingRequest (ranking_query (Some ''k1''))]"
  note first = refresh_is_bounded_and_resilient [where io=paged_source and i=0 and cont=None
      and page="?p0" and cs="[]" and tr="[]" and cols="?cols" and tr0="?tr0"]
  note second = refresh_is_bounded_and_resilient [where io=paged_source and i="Suc 0"
      and cont="Some ''k1''" and page="?p1" and cs="[] @ page_collections ?p0"
      and tr="[] @ [RankingRequest (ranking_query None)]"]
  note last = refresh_is_bounded_and_resilient [where io=paged_source and i=50 and cont=None
      and cs="[]" and tr="[]"]
  have h1: "\<forall>n c pg. ranking_reply paged_source n c = Inr pg \<longrightarrow> length (page_collections pg) \<le> 20"
    by (auto simp: paged_source_def split: if_splits)
  have h2: "0 < max_pages \<and> ranking_reply paged_source 0 None = Inr ?p0
            \<and> 20 \<le> length (page_collections ?p0)"
    by (simp add: max_pages_50 paged_source_def)
  have h3: "Suc 0 < max_pages \<and> ranking_reply paged_source (Suc 0) (Some ''k1'') = Inr ?p1
            \<and> length (page_collections ?p1) < 20"
    by (simp add: max_pages_50 paged_source_def)
  have h4: "max_pages \<le> 50" by (simp add: max_pages_50)
  have s1: "ranking_loop paged_source 0 None [] []
              = ranking_loop paged_source (Suc 0) (page_continuation ?p0) ([] @ page_collections ?p0)
                  ([] @ [RankingRequest (ranking_query None)])"
    using first h2 by blast
  have nx: "\<exists>es. snd (snd (ranking_loop paged_source 0 None [] []))
              = [] @ RankingRequest (ranking_query None)
                   # RankingRequest (ranking_query (page_continuation ?p0)) # es"
    using first h2 h3 by blast
  have s2: "ranking_loop paged_source (Suc 0) (Some ''k1'') ([] @ page_collections ?p0)
              ([] @ [RankingRequest (ranking_query None)])
            = (None, ([] @ page_collections ?p0) @ page_collections ?p1,
               ([] @ [RankingRequest (ranking_query None)]) @ [RankingRequest (ranking_query (Some ''k1''))])"
    using second h3 by blast
  have a: "ranking_loop paged_source 0 None [] [] = (None, ?cols, ?tr0)"
    using s1 s2 by simp
  have l: "(''limit'', ''20'') \<in> set (ranking_query (Some ''k1''))"
    using second by blast
  have b: "length (fst (snd (ranking_loop paged_source 0 None [] []))) \<le> MAX_FETCH_OFFERS_COLLECTIONS"
    using first h1 by blast
  have c: "ranking_loop paged_source 50 None [] [] = (None, [], [])"
    using last h4 by blast
  have ne: "?cols \<noteq> []" by simp
  obtain toAdd tr1 ls where
    sh: "refreshCollectionsToFetchOffers paged_source = tr1 @ Add toAdd True # ls"
    and tk: "filter is_tokens_request tr1
               = map (\<lambda>c. TokensRequest (tokens_query (collection_id c))) ?cols"
    and su: "\<forall>j tokens rnd. j < length ?cols
                      \<and> tokens_reply paged_source j (collection_id (?cols ! j)) = Inr (tokens, rnd)
                    \<longrightarrow> probe (?cols ! j) tokens rnd \<in> set toAdd"
    and fl: "\<forall>j e. j < length ?cols \<and> tokens_reply paged_source j (collection_id (?cols ! j)) = Inl e
                    \<longrightarrow> RfLogged (LError, ''refresh_collections'',
                                  ''Failed to refresh collection. collectionId='' @
                                  collection_id (?cols ! j) @ '', error:'' @ show_error e) \<in> set tr1"
    and ln: "length toAdd
               = length (filter (\<lambda>(j, c). \<not> isl (tokens_reply paged_source j (collection_id c)))
                           (enumerate 0 ?cols))"
    using first a ne by blast
  have t21: "21 < length ?cols
        \<and> tokens_reply paged_source 21 (collection_id (?cols ! 21)) = Inr ([''7'', ''8''], 3)"
    by (simp add: paged_source_def)
  have c21: "?cols ! 21 = col ''c''"
    by (simp add: nth_append)
  have "probe (?cols ! 21) [''7'', ''8''] 3 \<in> set toAdd"
    using su t21 by blast
  then have p: "probe (col ''c'') [''7'', ''8''] 3 \<in> set toAdd"
    using c21 by simp
  have t0: "0 < length ?cols
        \<and> tokens_reply paged_source 0 (collection_id (?cols ! 0)) = Inl server_error"
    by (simp add: paged_source_def)
  have c0: "collection_id (?cols ! 0) = ''a''"
    by (simp add: nth_append col_def)
  have "RfLogged (LError, ''refresh_collections'',
                  ''Failed to refresh collection. collectionId='' @
                  collection_id (?cols ! 0) @ '', error:'' @ show_error server_error) \<in> set tr1"
    using fl t0 by blast
  then have f: "RfLogged (LError, ''refresh_collections'',
                      ''Failed to refresh collection. collectionId='' @ ''a'' @
                      '', error:'' @ show_error server_error) \<in> set tr1"
    using c0 by simp
  have n: "length toAdd = 21"
    using ln paged_source_successes by simp
  have k: "length (filter is_tokens_request tr1) = 22"
    using tk by simp
  have f0: "tokens_reply paged_source 0 ''a'' = Inl server_error"
    by (simp add: paged_source_def)
  show ?thesis using a l b c f0 sh k p f n by blast
qed

end
